theory Spec2Isabelle
  imports Main "HOL-Library.Sublist"
begin

section \<open>rich-codex: the capture-and-render pipeline of \<open>rich_img.py\<close>\<close>

text \<open>
  A shallow embedding of \<open>src/rich_codex/rich_img.py\<close>. A \<open>RichImg\<close> object is a record,
  its methods are functions that take the object and the outside world (file system,
  log, spawned processes) and return the outcome together with the updated object and
  world. An exception is the outcome \<open>Raises\<close>; the object and the world returned with it
  are the ones at the moment the exception leaves the method.

  Python's \<open>str\<close> is modelled as \<open>string\<close>, one \<open>char\<close> per code point, so the model covers
  the code points below 256. The file system is a map from path strings to contents; in
  the first model of the exporter it refuses nothing and two paths name the same file
  exactly when they are the same string, and a second model of the exporter
  (\<open>save_images_io\<close>) lets the file system refuse any operation and lets different strings
  name one file.
\<close>

subsection \<open>The string methods the module uses\<close>

text \<open>\<open>str.isspace\<close> on the code points below 256.\<close>

definition is_space :: "char \<Rightarrow> bool" where
  "is_space c \<longleftrightarrow> (of_char c :: nat) \<in> set [9, 10, 11, 12, 13, 28, 29, 30, 31, 32, 133, 160]"

definition lstrip :: "string \<Rightarrow> string" where
  "lstrip s = dropWhile is_space s"

definition rstrip :: "string \<Rightarrow> string" where
  "rstrip s = rev (dropWhile is_space (rev s))"

text \<open>\<open>s.strip()\<close>\<close>

definition strip :: "string \<Rightarrow> string" where
  "strip s = rstrip (lstrip s)"

text \<open>\<open>s.lower()\<close>: A-Z and the upper-case letters of Latin-1 move up by 32.\<close>

definition lower_char :: "char \<Rightarrow> char" where
  "lower_char c =
     (let n = (of_char c :: nat)
      in if (65 \<le> n \<and> n \<le> 90) \<or> (192 \<le> n \<and> n \<le> 222 \<and> n \<noteq> 215)
         then char_of (n + 32) else c)"

definition lower :: "string \<Rightarrow> string" where
  "lower s = map lower_char s"

text \<open>\<open>s.startswith(p)\<close> and \<open>s.endswith(p)\<close>\<close>

definition startswith :: "string \<Rightarrow> string \<Rightarrow> bool" where
  "startswith s p \<longleftrightarrow> prefix p s"

definition endswith :: "string \<Rightarrow> string \<Rightarrow> bool" where
  "endswith s p \<longleftrightarrow> suffix p s"

text \<open>
  \<open>s.split(sep)\<close> for a separator string: the text is cut at the occurrences of the whole
  separator, found from left to right without overlap. (Python raises ValueError for an
  empty separator; the module's only call passes the two characters \<open>&;\<close>.)
\<close>

function split :: "string \<Rightarrow> string \<Rightarrow> string list" where
  "split sep [] = [[]]"
| "split sep (c # cs) =
     (if sep \<noteq> [] \<and> prefix sep (c # cs)
      then [] # split sep (drop (length sep) (c # cs))
      else (case split sep cs of p # ps \<Rightarrow> (c # p) # ps | [] \<Rightarrow> [[c]]))"
  by pat_completeness auto
termination
  by (relation "measure (\<lambda>(sep, s). length s)") (auto simp: neq_Nil_conv)

subsection \<open>The object\<close>

text \<open>What the capture console has recorded: one entry per \<open>print\<close> / \<open>print_json\<close> call.\<close>

datatype renderable =
    AnsiLine string
  | JsonText string
  | Syntax string "string option"

text \<open>
  Python values, for the attributes that \<open>__init__\<close> stores as they are given
  (\<open>terminal_width\<close>, \<open>terminal_theme\<close>) and for the lists that \<open>__eq__\<close> and \<open>__hash__\<close>
  build. Floats are not modelled; an int and a bool stand for the numbers that compare
  equal and print differently.
\<close>

datatype pyval = PyNone | PyBool bool | PyInt int | PyStr string | PyList "pyval list"

text \<open>
  The attributes the methods work on have the types the methods need: \<open>cmd\<close>, \<open>snippet\<close>
  and \<open>snippet_syntax\<close> are a string or None, \<open>title\<close> is a string, \<open>img_paths\<close> a list of
  strings.
\<close>

record RichImg =
  terminal_width :: pyval
  terminal_theme :: pyval
  title :: string
  capture_console :: "renderable list"
  cmd :: "string option"
  snippet :: "string option"
  snippet_syntax :: "string option"
  img_paths :: "string list"
  no_confirm :: bool
  aborted :: bool

subsection \<open>Equality and hashing\<close>

















subsection \<open>The outside world\<close>

type_synonym path = string

datatype exn =
    AttributeError
  | FileNotFoundError
  | SameFileError
  | RuntimeError
  | JSONDecodeError
  | UnicodeDecodeError
  | IOError
  | ParseError

datatype 'a outcome = Raises exn | Returns 'a

datatype retval = RetNone | RetBool bool | RetInt int

text \<open>
  What a file holds: nothing yet, the output of a shell command line, the SVG rendering
  of a console recording under a title, or the PNG or PDF made from a file's content.
\<close>

datatype content =
    Empty
  | ProcessOutput string
  | SvgImage "renderable list" string
  | PngImage content
  | PdfImage content

datatype level = DEBUG | INFO | WARNING | ERROR

datatype event =
    Log level string
  | Mkstemp path
  | Popen string
  | Mkdir path
  | SaveSvg path
  | CopyFile path path
  | ImportCairosvg
  | Svg2Png path path
  | Svg2Pdf path path
  | Unlink path

record world =
  fs :: "path \<Rightarrow> content option"
  events :: "event list"
  temps :: nat

datatype import_result = Imported | ImportError | OSError

text \<open>
  The parts of the environment the module calls and does not define: the name
  \<open>mkstemp\<close> picks for the n-th temporary file with a suffix, what reading a file as text
  gives (the text, or the IO or decoding error), the lines \<open>AnsiDecoder.decode\<close> yields,
  the pretty-printed JSON of a text (None when it does not parse), how
  \<open>from cairosvg import svg2pdf, svg2png\<close> ends, and \<open>str(e)\<close> of the exception \<open>e\<close> it raises
  when it fails.
\<close>

record env =
  mkstemp_path :: "nat \<Rightarrow> string \<Rightarrow> path"
  read_text :: "content \<Rightarrow> exn + string"
  ansi_lines :: "string \<Rightarrow> string list"
  json_pretty :: "string \<Rightarrow> string option"
  cairosvg :: import_result
  import_error :: string

definition log :: "level \<Rightarrow> string \<Rightarrow> world \<Rightarrow> world" where
  "log l m w = w\<lparr>events := events w @ [Log l m]\<rparr>"

text \<open>\<open>mkstemp(suffix=sfx)\<close> creates an empty file and returns its path.\<close>

definition mkstemp :: "env \<Rightarrow> string \<Rightarrow> world \<Rightarrow> path \<times> world" where
  "mkstemp e sfx w =
     (let p = mkstemp_path e (temps w) sfx
      in (p, w\<lparr>fs := (fs w)(p \<mapsto> Empty), events := events w @ [Mkstemp p],
               temps := Suc (temps w)\<rparr>))"

text \<open>
  \<open>subprocess.Popen(command, shell=True)\<close> and \<open>communicate()\<close>: the shell runs the command
  line, whose redirection fills the temporary file.
\<close>

definition popen :: "string \<Rightarrow> path \<Rightarrow> world \<Rightarrow> world" where
  "popen command tmp_file w =
     w\<lparr>fs := (fs w)(tmp_file \<mapsto> ProcessOutput command), events := events w @ [Popen command]\<rparr>"

text \<open>\<open>open(p, "r")\<close> and \<open>read()\<close>\<close>

definition open_read :: "env \<Rightarrow> path \<Rightarrow> world \<Rightarrow> exn + string" where
  "open_read e p w = (case fs w p of None \<Rightarrow> Inl FileNotFoundError | Some c \<Rightarrow> read_text e c)"

text \<open>
  \<open>shutil.copyfile(src, dst)\<close> (and \<open>shutil.copy\<close>): SameFileError when both name one
  existing file, FileNotFoundError when the source is missing. Here two paths name one
  file when they are the same string and the write is not refused; \<open>copyfile_io\<close> below
  has \<open>os.path.samefile\<close> and a file system that can refuse.
\<close>

definition copyfile :: "path \<Rightarrow> path \<Rightarrow> world \<Rightarrow> exn + world" where
  "copyfile src dst w =
     (case fs w src of
        None \<Rightarrow> Inl FileNotFoundError
      | Some c \<Rightarrow>
          if src = dst then Inl SameFileError
          else Inr (w\<lparr>fs := (fs w)(dst \<mapsto> c), events := events w @ [CopyFile src dst]\<rparr>))"

text \<open>\<open>os.unlink(p)\<close> and \<open>pathlib.Path(p).unlink()\<close>\<close>

definition unlink :: "path \<Rightarrow> world \<Rightarrow> exn + world" where
  "unlink p w =
     (case fs w p of
        None \<Rightarrow> Inl FileNotFoundError
      | Some c \<Rightarrow> Inr (w\<lparr>fs := (fs w)(p := None), events := events w @ [Unlink p]\<rparr>))"

text \<open>\<open>pathlib.Path(filename).parent.mkdir(parents=True, exist_ok=True)\<close>, when it goes
  through (\<open>mkdir_parent_io\<close> below can raise).\<close>

definition mkdir_parent :: "path \<Rightarrow> world \<Rightarrow> world" where
  "mkdir_parent filename w = w\<lparr>events := events w @ [Mkdir filename]\<rparr>"

text \<open>\<open>capture_console.save_svg(p, title=self.title)\<close>, when the file can be written
  (\<open>save_svg_io\<close> below can raise).\<close>

definition save_svg :: "RichImg \<Rightarrow> path \<Rightarrow> world \<Rightarrow> world" where
  "save_svg self p w =
     w\<lparr>fs := (fs w)(p \<mapsto> SvgImage (capture_console self) (title self)),
       events := events w @ [SaveSvg p]\<rparr>"

text \<open>
  \<open>svg2png(file_obj=open(src, "rb"), write_to=dst, ...)\<close> and \<open>svg2pdf\<close>: the source is
  opened and parsed as SVG, then the destination is written.
\<close>

definition svg2png :: "path \<Rightarrow> path \<Rightarrow> world \<Rightarrow> exn + world" where
  "svg2png src dst w =
     (case fs w src of
        None \<Rightarrow> Inl FileNotFoundError
      | Some (SvgImage r t) \<Rightarrow>
          Inr (w\<lparr>fs := (fs w)(dst \<mapsto> PngImage (SvgImage r t)),
                 events := events w @ [Svg2Png src dst]\<rparr>)
      | Some _ \<Rightarrow> Inl ParseError)"

definition svg2pdf :: "path \<Rightarrow> path \<Rightarrow> world \<Rightarrow> exn + world" where
  "svg2pdf src dst w =
     (case fs w src of
        None \<Rightarrow> Inl FileNotFoundError
      | Some (SvgImage r t) \<Rightarrow>
          Inr (w\<lparr>fs := (fs w)(dst \<mapsto> PdfImage (SvgImage r t)),
                 events := events w @ [Svg2Pdf src dst]\<rparr>)
      | Some _ \<Rightarrow> Inl ParseError)"

subsection \<open>The command guard and the capturer\<close>

definition IGNORE_COMMANDS :: "string list" where
  "IGNORE_COMMANDS = [''rm'', ''cp'', ''mv'', ''sudo'']"

text \<open>
  The loop over \<open>IGNORE_COMMANDS\<close> of \<open>pipe_command\<close>, on the stripped command: the first
  name that some part of \<open>cmd.split("&;")\<close>, stripped, starts with; None when the loop
  ends without a hit.
\<close>

definition ignored :: "string \<Rightarrow> string option" where
  "ignored c =
     find (\<lambda>ignore. list_ex (\<lambda>cmd_part. startswith (strip cmd_part) ignore) (split ''&;'' c))
       IGNORE_COMMANDS"

definition quoted :: "string \<Rightarrow> string" where
  "quoted s = [CHR 0x27] @ s @ [CHR 0x27]"

text \<open>
  \<open>import datetime\<close> binds the module, and the module \<open>datetime\<close> has no attribute \<open>now\<close>
  (the class \<open>datetime.datetime\<close> has): evaluating \<open>datetime.now()\<close> raises AttributeError.
\<close>

definition datetime_now :: "exn + string" where
  "datetime_now = Inl AttributeError"

definition pipe_command :: "env \<Rightarrow> RichImg \<Rightarrow> world \<Rightarrow> retval outcome \<times> RichImg \<times> world" where
  "pipe_command e self w =
     (case cmd self of
        None \<Rightarrow> (Returns RetNone, self, log DEBUG ''Tried to generate image with no command'' w)
      | Some c0 \<Rightarrow>
          let c = strip c0;
              self = self\<lparr>cmd := Some c\<rparr>
          in (case ignored c of
                Some ignore \<Rightarrow>
                  (Returns (RetBool False), self\<lparr>aborted := True\<rparr>,
                   log WARNING (''Ignoring command because it contained '' @ quoted ignore @
                                '': [white on black] '' @ c @ '' [/]'') w)
              | None \<Rightarrow>
                  let w = log DEBUG (''Running command '' @ quoted c) w;
                      self = (if title self = [] then self\<lparr>title := c\<rparr> else self);
                      (tmp_file, w) = mkstemp e [] w;
                      command = ''script -q /dev/null '' @ c @ '' 2>&1 > '' @ tmp_file;
                      w = popen command tmp_file w
                  in (case open_read e tmp_file w of
                        Inl ex \<Rightarrow> (Raises ex, self, w)
                      | Inr txt \<Rightarrow>
                          let self = self\<lparr>capture_console :=
                                capture_console self @ map AnsiLine (ansi_lines e txt)\<rparr>
                          in (case datetime_now of
                                Inl ex \<Rightarrow> (Raises ex, self, w)
                              | Inr timestamp \<Rightarrow>
                                  (case copyfile tmp_file
                                          (''rich_codex_cmdout_'' @ timestamp @ ''.log'') w of
                                     Inl ex \<Rightarrow> (Raises ex, self, w)
                                   | Inr w1 \<Rightarrow>
                                       (case unlink tmp_file w1 of
                                          Inl ex \<Rightarrow> (Raises ex, self, w1)
                                        | Inr w2 \<Rightarrow> (Returns RetNone, self, w2)))))))"

subsection \<open>The snippet formatter\<close>

text \<open>\<open>capture_console.print_json(json=s)\<close>: the text is parsed before anything is printed.\<close>

definition print_json :: "env \<Rightarrow> string \<Rightarrow> exn + renderable" where
  "print_json e s = (case json_pretty e s of None \<Rightarrow> Inl JSONDecodeError | Some t \<Rightarrow> Inr (JsonText t))"

text \<open>\<open>str(x)\<close> inside an f-string, for an optional string.\<close>

definition fmt_opt :: "string option \<Rightarrow> string" where
  "fmt_opt x = (case x of None \<Rightarrow> ''None'' | Some s \<Rightarrow> s)"

text \<open>
  The method the class defines is named \<open>format_snippetg\<close>. In its \<open>try\<close> block the bare
  \<open>raise\<close> of the \<open>else\<close> branch raises RuntimeError (there is no active exception), and
  \<open>except Exception\<close> catches it as it catches a failure of \<open>print_json\<close>.
\<close>

definition format_snippetg :: "env \<Rightarrow> RichImg \<Rightarrow> world \<Rightarrow> retval outcome \<times> RichImg \<times> world" where
  "format_snippetg e self w =
     (case snippet self of
        None \<Rightarrow> (Returns RetNone, self, log DEBUG ''Tried to format snippet with no snippet'' w)
      | Some s \<Rightarrow>
          let w = log INFO ''Formatting snippet'' w
          in (case (if snippet_syntax self = Some ''json'' \<or> snippet_syntax self = None
                    then print_json e s else Inl RuntimeError) of
                Inr r \<Rightarrow>
                  (Returns RetNone, self\<lparr>capture_console := capture_console self @ [r]\<rparr>,
                   log DEBUG ''Formatting snippet as JSON'' w)
              | Inl ex \<Rightarrow>
                  (Returns RetNone,
                   self\<lparr>capture_console := capture_console self @ [Syntax s (snippet_syntax self)]\<rparr>,
                   log DEBUG (''Formatting snippet as '' @ fmt_opt (snippet_syntax self)) w)))"

subsection \<open>The lexer a \<open>Syntax\<close> entry is highlighted with\<close>

text \<open>
  What rich does with the second argument of \<open>Syntax(code, lexer)\<close> when the entry is
  printed (rich is not part of this module; this is \<open>Syntax.lexer\<close>, \<open>Syntax.default_lexer\<close>
  and \<open>Syntax.highlight\<close> of rich's \<open>syntax.py\<close>): \<open>highlight\<close> uses
  \<open>self.lexer or self.default_lexer\<close>; \<open>self.lexer\<close> is the lexer Pygments finds under the
  given name, and None when Pygments raises ClassNotFound, which it does for no name, for
  the empty name and for a name that, in lower case, is no alias of a lexer it has; the
  default lexer is the one named \<open>text\<close>. \<open>has_lexer\<close> stands for the aliases Pygments
  has.
\<close>

definition effective_lexer :: "(string \<Rightarrow> bool) \<Rightarrow> string option \<Rightarrow> string" where
  "effective_lexer has_lexer tag =
     (case tag of
        None \<Rightarrow> ''text''
      | Some t \<Rightarrow> if t \<noteq> [] \<and> has_lexer (lower t) then t else ''text'')"

text \<open>The text a console entry highlights and the lexer it is highlighted with, for a
  \<open>Syntax\<close> entry.\<close>

definition highlighted :: "(string \<Rightarrow> bool) \<Rightarrow> renderable \<Rightarrow> (string \<times> string) option" where
  "highlighted has_lexer r =
     (case r of Syntax code tag \<Rightarrow> Some (code, effective_lexer has_lexer tag) | _ \<Rightarrow> None)"

subsection \<open>Choosing between the two\<close>

text \<open>
  \<open>get_output\<close> calls \<open>self.format_snippet()\<close>; the class has no attribute of that name, so
  the call raises AttributeError. The value of \<open>pipe_command\<close> is dropped.
\<close>

definition get_output :: "env \<Rightarrow> RichImg \<Rightarrow> world \<Rightarrow> retval outcome \<times> RichImg \<times> world" where
  "get_output e self w =
     (if cmd self \<noteq> None then
        (case pipe_command e self w of
           (Raises ex, self', w') \<Rightarrow> (Raises ex, self', w')
         | (Returns r, self', w') \<Rightarrow> (Returns RetNone, self', w'))
      else if snippet self = None then (Raises AttributeError, self, w)
      else (Returns RetNone, self,
            log DEBUG ''Tried to get output with no command or snippet'' w))"

subsection \<open>The image exporter\<close>

text \<open>The three local variables of \<open>save_images\<close> that remember what was made.\<close>

record cache =
  svg_img :: "path option"
  png_img :: "path option"
  pdf_img :: "path option"

text \<open>
  The three \<open>if ... copyfile(..., filename); continue\<close> statements at the head of the loop
  body: the file to copy from, None when none of the three conditions holds.
\<close>

definition cached_source :: "path \<Rightarrow> cache \<Rightarrow> path option" where
  "cached_source filename c =
     (if endswith (lower filename) ''.png'' \<and> png_img c \<noteq> None then png_img c
      else if endswith (lower filename) ''.pdf'' \<and> pdf_img c \<noteq> None then pdf_img c
      else if svg_img c \<noteq> None then svg_img c
      else None)"

text \<open>
  The warning sign of the second error message is the two code points U+26A0 U+FE0F,
  which are beyond 255; here they are written as their six UTF-8 bytes.
\<close>

definition warning_sign :: string where
  "warning_sign = [CHR 0xE2, CHR 0x9A, CHR 0xA0, CHR 0xEF, CHR 0xB8, CHR 0x8F]"

text \<open>What the two \<open>except\<close> branches of the import log before \<open>continue\<close>.\<close>

definition import_failed :: "env \<Rightarrow> path \<Rightarrow> world \<Rightarrow> world" where
  "import_failed e filename w =
     (if cairosvg e = ImportError then
        log INFO (''Please install with cairo extra: '' @ quoted ''rich-codex[cairo]'')
          (log ERROR ''CairoSVG not installed, cannot convert SVG to PNG or PDF.''
             (log DEBUG (import_error e) w))
      else
        log ERROR (warning_sign @
                   ''  Missing [link=https://cairosvg.org/documentation/]CairoSVG dependencies[/], '' @
                   ''cannot convert SVG to PNG or PDF. '' @ warning_sign @ [CHR 0x0A] @
                   ''[red]Skipping image '' @ quoted filename @ ''[/]'')
          (log DEBUG (import_error e) w))"

definition convert_png :: "path \<Rightarrow> path \<Rightarrow> cache \<times> world \<Rightarrow> exn \<times> world + cache \<times> world" where
  "convert_png filename svg_filename cw =
     (let (c, w) = cw in
      if endswith (lower filename) ''.png'' then
        (case svg2png svg_filename filename w of
           Inl ex \<Rightarrow> Inl (ex, w)
         | Inr w1 \<Rightarrow>
             (case unlink svg_filename w1 of
                Inl ex \<Rightarrow> Inl (ex, w1)
              | Inr w2 \<Rightarrow> Inr (c\<lparr>png_img := Some filename\<rparr>, w2)))
      else Inr (c, w))"

definition convert_pdf :: "path \<Rightarrow> path \<Rightarrow> cache \<times> world \<Rightarrow> exn \<times> world + cache \<times> world" where
  "convert_pdf filename svg_filename cw =
     (let (c, w) = cw in
      if endswith (lower filename) ''.pdf'' then
        (case svg2pdf svg_filename filename w of
           Inl ex \<Rightarrow> Inl (ex, w)
         | Inr w1 \<Rightarrow>
             (case unlink svg_filename w1 of
                Inl ex \<Rightarrow> Inl (ex, w1)
              | Inr w2 \<Rightarrow> Inr (c\<lparr>pdf_img := Some filename\<rparr>, w2)))
      else Inr (c, w))"

text \<open>The body of the loop for one \<open>filename\<close>.\<close>

definition save_image :: "env \<Rightarrow> RichImg \<Rightarrow> path \<Rightarrow> cache \<times> world \<Rightarrow> exn \<times> world + cache \<times> world" where
  "save_image e self filename cw =
     (let (c, w) = cw;
          w = log DEBUG (''Saving [magenta]'' @ filename) w;
          w = mkdir_parent filename w
      in (case cached_source filename c of
            Some src \<Rightarrow>
              (case copyfile src filename w of
                 Inl ex \<Rightarrow> Inl (ex, w)
               | Inr w1 \<Rightarrow> Inr (c, w1))
          | None \<Rightarrow>
              let raster = (endswith (lower filename) ''.png'' \<or> endswith (lower filename) ''.pdf'');
                  (svg_filename, w) = (if raster then mkstemp e ''.svg'' w else (filename, w));
                  (c, w) = (if svg_img c = None
                            then (c\<lparr>svg_img := Some svg_filename\<rparr>, save_svg self svg_filename w)
                            else (c, w));
                  w = (if raster then w\<lparr>events := events w @ [ImportCairosvg]\<rparr> else w)
              in if raster \<and> cairosvg e \<noteq> Imported
                 then Inr (c, import_failed e filename w)
                 else (case convert_png filename svg_filename (c, w) of
                         Inl x \<Rightarrow> Inl x
                       | Inr cw1 \<Rightarrow> convert_pdf filename svg_filename cw1)))"

text \<open>The \<open>for filename in self.img_paths\<close> loop: an exception ends it.\<close>

fun save_loop :: "env \<Rightarrow> RichImg \<Rightarrow> path list \<Rightarrow> cache \<times> world \<Rightarrow> exn \<times> world + cache \<times> world" where
  "save_loop e self [] cw = Inr cw"
| "save_loop e self (filename # rest) cw =
     (case save_image e self filename cw of
        Inl x \<Rightarrow> Inl x
      | Inr cw1 \<Rightarrow> save_loop e self rest cw1)"

definition save_images :: "env \<Rightarrow> RichImg \<Rightarrow> world \<Rightarrow> retval outcome \<times> world" where
  "save_images e self w =
     (if aborted self then (Returns RetNone, w)
      else if length (img_paths self) = 0
      then (Returns RetNone, log WARNING ''Tried to save images with no paths'' w)
      else (case save_loop e self (img_paths self)
                   (\<lparr>svg_img = None, png_img = None, pdf_img = None\<rparr>, w) of
              Inl (ex, w') \<Rightarrow> (Raises ex, w')
            | Inr (c, w') \<Rightarrow> (Returns (RetInt (int (length (img_paths self)))), w')))"

subsection \<open>The image exporter on a file system that can refuse\<close>

text \<open>
  The exporter once more, with the same statements in the same order, on a file system
  that may refuse any of its operations and on which two different path strings may name
  the same file. \<open>refuses d op w\<close> is the exception the operation \<open>op\<close> raises in the world
  \<open>w\<close>, None when it goes through (making the parents of a path can raise FileExistsError
  when a parent is a file, a write can raise for a directory or an unwritable target, and
  so on); \<open>same_file d a b\<close> is \<open>os.path.samefile\<close> for two different strings.
\<close>

datatype fs_op =
    MakeParents path
  | MakeTemp string
  | ReadFile path
  | WriteFile path
  | RemoveFile path

record disk =
  same_file :: "path \<Rightarrow> path \<Rightarrow> bool"
  refuses :: "fs_op \<Rightarrow> world \<Rightarrow> exn option"

definition mkdir_parent_io :: "disk \<Rightarrow> path \<Rightarrow> world \<Rightarrow> exn + world" where
  "mkdir_parent_io d filename w =
     (case refuses d (MakeParents filename) w of
        Some ex \<Rightarrow> Inl ex
      | None \<Rightarrow> Inr (mkdir_parent filename w))"

definition mkstemp_io :: "disk \<Rightarrow> env \<Rightarrow> string \<Rightarrow> world \<Rightarrow> exn + path \<times> world" where
  "mkstemp_io d e sfx w =
     (case refuses d (MakeTemp sfx) w of
        Some ex \<Rightarrow> Inl ex
      | None \<Rightarrow> Inr (mkstemp e sfx w))"

definition save_svg_io :: "disk \<Rightarrow> RichImg \<Rightarrow> path \<Rightarrow> world \<Rightarrow> exn + world" where
  "save_svg_io d self p w =
     (case refuses d (WriteFile p) w of
        Some ex \<Rightarrow> Inl ex
      | None \<Rightarrow> Inr (save_svg self p w))"

text \<open>
  \<open>shutil.copyfile\<close>: the same-file test comes first (it needs the source to exist), then
  the source is opened, then the destination.
\<close>

definition copyfile_io :: "disk \<Rightarrow> path \<Rightarrow> path \<Rightarrow> world \<Rightarrow> exn + world" where
  "copyfile_io d src dst w =
     (case fs w src of
        None \<Rightarrow> Inl FileNotFoundError
      | Some c \<Rightarrow>
          if src = dst \<or> same_file d src dst then Inl SameFileError
          else (case refuses d (ReadFile src) w of
                  Some ex \<Rightarrow> Inl ex
                | None \<Rightarrow>
                    (case refuses d (WriteFile dst) w of
                       Some ex \<Rightarrow> Inl ex
                     | None \<Rightarrow>
                         Inr (w\<lparr>fs := (fs w)(dst \<mapsto> c),
                                events := events w @ [CopyFile src dst]\<rparr>))))"

definition svg2png_io :: "disk \<Rightarrow> path \<Rightarrow> path \<Rightarrow> world \<Rightarrow> exn + world" where
  "svg2png_io d src dst w =
     (case fs w src of
        None \<Rightarrow> Inl FileNotFoundError
      | Some c \<Rightarrow>
          (case refuses d (ReadFile src) w of
             Some ex \<Rightarrow> Inl ex
           | None \<Rightarrow>
               (case c of
                  SvgImage r t \<Rightarrow>
                    (case refuses d (WriteFile dst) w of
                       Some ex \<Rightarrow> Inl ex
                     | None \<Rightarrow> svg2png src dst w)
                | _ \<Rightarrow> Inl ParseError)))"

definition svg2pdf_io :: "disk \<Rightarrow> path \<Rightarrow> path \<Rightarrow> world \<Rightarrow> exn + world" where
  "svg2pdf_io d src dst w =
     (case fs w src of
        None \<Rightarrow> Inl FileNotFoundError
      | Some c \<Rightarrow>
          (case refuses d (ReadFile src) w of
             Some ex \<Rightarrow> Inl ex
           | None \<Rightarrow>
               (case c of
                  SvgImage r t \<Rightarrow>
                    (case refuses d (WriteFile dst) w of
                       Some ex \<Rightarrow> Inl ex
                     | None \<Rightarrow> svg2pdf src dst w)
                | _ \<Rightarrow> Inl ParseError)))"

definition unlink_io :: "disk \<Rightarrow> path \<Rightarrow> world \<Rightarrow> exn + world" where
  "unlink_io d p w =
     (case fs w p of
        None \<Rightarrow> Inl FileNotFoundError
      | Some c \<Rightarrow>
          (case refuses d (RemoveFile p) w of
             Some ex \<Rightarrow> Inl ex
           | None \<Rightarrow> unlink p w))"

definition convert_png_io ::
  "disk \<Rightarrow> path \<Rightarrow> path \<Rightarrow> cache \<times> world \<Rightarrow> exn \<times> world + cache \<times> world" where
  "convert_png_io d filename svg_filename cw =
     (let (c, w) = cw in
      if endswith (lower filename) ''.png'' then
        (case svg2png_io d svg_filename filename w of
           Inl ex \<Rightarrow> Inl (ex, w)
         | Inr w1 \<Rightarrow>
             (case unlink_io d svg_filename w1 of
                Inl ex \<Rightarrow> Inl (ex, w1)
              | Inr w2 \<Rightarrow> Inr (c\<lparr>png_img := Some filename\<rparr>, w2)))
      else Inr (c, w))"

definition convert_pdf_io ::
  "disk \<Rightarrow> path \<Rightarrow> path \<Rightarrow> cache \<times> world \<Rightarrow> exn \<times> world + cache \<times> world" where
  "convert_pdf_io d filename svg_filename cw =
     (let (c, w) = cw in
      if endswith (lower filename) ''.pdf'' then
        (case svg2pdf_io d svg_filename filename w of
           Inl ex \<Rightarrow> Inl (ex, w)
         | Inr w1 \<Rightarrow>
             (case unlink_io d svg_filename w1 of
                Inl ex \<Rightarrow> Inl (ex, w1)
              | Inr w2 \<Rightarrow> Inr (c\<lparr>pdf_img := Some filename\<rparr>, w2)))
      else Inr (c, w))"

text \<open>The statements of the loop body from \<open>svg_filename = filename\<close> on.\<close>

definition generate_io ::
  "disk \<Rightarrow> env \<Rightarrow> RichImg \<Rightarrow> path \<Rightarrow> cache \<times> world \<Rightarrow> exn \<times> world + cache \<times> world" where
  "generate_io d e self filename cw =
     (let (c, w) = cw;
          raster = (endswith (lower filename) ''.png'' \<or> endswith (lower filename) ''.pdf'')
      in (case (if raster then mkstemp_io d e ''.svg'' w else Inr (filename, w)) of
            Inl ex \<Rightarrow> Inl (ex, w)
          | Inr (svg_filename, w1) \<Rightarrow>
              (case (if svg_img c = None
                     then (case save_svg_io d self svg_filename w1 of
                             Inl ex \<Rightarrow> Inl ex
                           | Inr w2 \<Rightarrow> Inr (c\<lparr>svg_img := Some svg_filename\<rparr>, w2))
                     else Inr (c, w1)) of
                 Inl ex \<Rightarrow> Inl (ex, w1)
               | Inr (c2, w2) \<Rightarrow>
                   let w3 = (if raster then w2\<lparr>events := events w2 @ [ImportCairosvg]\<rparr> else w2)
                   in if raster \<and> cairosvg e \<noteq> Imported
                      then Inr (c2, import_failed e filename w3)
                      else (case convert_png_io d filename svg_filename (c2, w3) of
                              Inl x \<Rightarrow> Inl x
                            | Inr cw1 \<Rightarrow> convert_pdf_io d filename svg_filename cw1))))"

text \<open>The body of the loop for one \<open>filename\<close>.\<close>

definition save_image_io ::
  "disk \<Rightarrow> env \<Rightarrow> RichImg \<Rightarrow> path \<Rightarrow> cache \<times> world \<Rightarrow> exn \<times> world + cache \<times> world" where
  "save_image_io d e self filename cw =
     (let (c, w) = cw;
          w = log DEBUG (''Saving [magenta]'' @ filename) w
      in (case mkdir_parent_io d filename w of
            Inl ex \<Rightarrow> Inl (ex, w)
          | Inr w1 \<Rightarrow>
              (case cached_source filename c of
                 Some src \<Rightarrow>
                   (case copyfile_io d src filename w1 of
                      Inl ex \<Rightarrow> Inl (ex, w1)
                    | Inr w2 \<Rightarrow> Inr (c, w2))
               | None \<Rightarrow> generate_io d e self filename (c, w1))))"

fun save_loop_io ::
  "disk \<Rightarrow> env \<Rightarrow> RichImg \<Rightarrow> path list \<Rightarrow> cache \<times> world \<Rightarrow> exn \<times> world + cache \<times> world" where
  "save_loop_io d e self [] cw = Inr cw"
| "save_loop_io d e self (filename # rest) cw =
     (case save_image_io d e self filename cw of
        Inl x \<Rightarrow> Inl x
      | Inr cw1 \<Rightarrow> save_loop_io d e self rest cw1)"

definition save_images_io :: "disk \<Rightarrow> env \<Rightarrow> RichImg \<Rightarrow> world \<Rightarrow> retval outcome \<times> world" where
  "save_images_io d e self w =
     (if aborted self then (Returns RetNone, w)
      else if length (img_paths self) = 0
      then (Returns RetNone, log WARNING ''Tried to save images with no paths'' w)
      else (case save_loop_io d e self (img_paths self)
                   (\<lparr>svg_img = None, png_img = None, pdf_img = None\<rparr>, w) of
              Inl (ex, w') \<Rightarrow> (Raises ex, w')
            | Inr (c, w') \<Rightarrow> (Returns (RetInt (int (length (img_paths self)))), w')))"

text \<open>A file system that refuses nothing.\<close>

definition quiet :: "disk \<Rightarrow> bool" where
  "quiet d \<longleftrightarrow> (\<forall>op w. refuses d op w = None)"

subsection \<open>The guard as the specification words it\<close>

text \<open>
  The specification's guard: the command is split on the sequencing and pipe separators
  of the shell (the characters \<open>;\<close>, \<open>&\<close> and \<open>|\<close>, so that \<open>&&\<close> and \<open>||\<close> separate
  too), and it is rejected when some segment, trimmed, starts with a name on the denylist.
\<close>

definition is_separator :: "char \<Rightarrow> bool" where
  "is_separator c \<longleftrightarrow> c \<in> set ''&;|''"

fun spec_segments :: "string \<Rightarrow> string list" where
  "spec_segments [] = [[]]"
| "spec_segments (c # cs) =
     (if is_separator c then [] # spec_segments cs
      else (case spec_segments cs of p # ps \<Rightarrow> (c # p) # ps | [] \<Rightarrow> [[c]]))"

definition spec_rejects :: "string \<Rightarrow> bool" where
  "spec_rejects c =
     list_ex (\<lambda>seg. list_ex (\<lambda>name. startswith (strip seg) name) IGNORE_COMMANDS)
       (spec_segments c)"

text \<open>The first pipeline segment of a command, trimmed, starts with a denylisted name.\<close>

definition first_segment_denied :: "string \<Rightarrow> bool" where
  "first_segment_denied c =
     (case spec_segments c of
        [] \<Rightarrow> False
      | seg # _ \<Rightarrow> list_ex (\<lambda>name. startswith (strip seg) name) IGNORE_COMMANDS)"

subsection \<open>Reading a run of the exporter\<close>

text \<open>The world a run of the loop ends in, whether it ends normally or by an exception.\<close>

definition world_of :: "exn \<times> world + cache \<times> world \<Rightarrow> world" where
  "world_of r = (case r of Inl (ex, w) \<Rightarrow> w | Inr (c, w) \<Rightarrow> w)"

definition is_unlink :: "event \<Rightarrow> bool" where
  "is_unlink ev = (case ev of Unlink p \<Rightarrow> True | _ \<Rightarrow> False)"

definition is_raster_call :: "event \<Rightarrow> bool" where
  "is_raster_call ev = (case ev of Svg2Png a b \<Rightarrow> True | Svg2Pdf a b \<Rightarrow> True | _ \<Rightarrow> False)"

definition is_error_log :: "event \<Rightarrow> bool" where
  "is_error_log ev = (case ev of Log l m \<Rightarrow> l = ERROR | _ \<Rightarrow> False)"

subsection \<open>Concrete inputs\<close>



definition demo_env :: env where
  "demo_env =
     \<lparr>mkstemp_path = (\<lambda>n sfx. ''/tmp/tmp'' @ replicate n CHR ''x'' @ sfx),
      read_text = (\<lambda>c. case c of ProcessOutput s \<Rightarrow> Inr ''hello'' | _ \<Rightarrow> Inl UnicodeDecodeError),
      ansi_lines = (\<lambda>s. [s]),
      json_pretty = (\<lambda>s. if s = ''{}'' then Some ''{}'' else None),
      cairosvg = Imported,
      import_error = ''No module named '' @ quoted ''cairosvg''\<rparr>"

definition demo_job :: RichImg where
  "demo_job =
     \<lparr>terminal_width = PyNone, terminal_theme = PyNone, title = [], capture_console = [],
      cmd = None, snippet = None, snippet_syntax = None, img_paths = [],
      no_confirm = False, aborted = False\<rparr>"

definition demo_world :: world where
  "demo_world = \<lparr>fs = (\<lambda>_. None), events = [], temps = 0\<rparr>"

text \<open>A Pygments that has three lexers.\<close>

definition demo_has_lexer :: "string \<Rightarrow> bool" where
  "demo_has_lexer t \<longleftrightarrow> t \<in> set [''json'', ''python'', ''text'']"

text \<open>A file system that refuses nothing and on which \<open>./a.svg\<close> is the file \<open>a.svg\<close>.\<close>

definition demo_disk :: disk where
  "demo_disk =
     \<lparr>same_file = (\<lambda>a b. (a = ''a.svg'' \<and> b = ''./a.svg'') \<or> (a = ''./a.svg'' \<and> b = ''a.svg'')),
      refuses = (\<lambda>op w. None)\<rparr>"

section \<open>Equality and hashing of jobs\<close>









section \<open>The command capturer\<close>

text \<open>A command the guard hits: \<open>pipe_command\<close> returns False before anything is created.\<close>

lemma pipe_command_rejected:
  assumes "cmd self = Some c" and "ignored (strip c) = Some name"
  shows "pipe_command e self w =
           (Returns (RetBool False), self\<lparr>cmd := Some (strip c), aborted := True\<rparr>,
            log WARNING (''Ignoring command because it contained '' @ quoted name @
                         '': [white on black] '' @ strip c @ '' [/]'') w)"
  using assms by (simp add: pipe_command_def Let_def)

text \<open>A command the guard lets through: the temporary file is made and the shell is run;
  if the output can be read, the lines are printed, and then \<open>datetime.now()\<close> raises. The
  method therefore always ends by an exception, with the temporary file still there.\<close>

lemma pipe_command_allowed:
  assumes "cmd self = Some c" and "ignored (strip c) = None"
  shows "\<exists>ex self' w'. pipe_command e self w = (Raises ex, self', w') \<and>
           aborted self' = aborted self \<and>
           fs w' (mkstemp_path e (temps w) []) =
             Some (ProcessOutput (''script -q /dev/null '' @ strip c @ '' 2>&1 > '' @
                                  mkstemp_path e (temps w) [])) \<and>
           events w' =
             events w @
             [Log DEBUG (''Running command '' @ quoted (strip c)),
              Mkstemp (mkstemp_path e (temps w) []),
              Popen (''script -q /dev/null '' @ strip c @ '' 2>&1 > '' @
                     mkstemp_path e (temps w) [])]"
  using assms
  by (simp add: pipe_command_def Let_def mkstemp_def popen_def open_read_def log_def
      datetime_now_def split: sum.splits)

lemma pipe_command_returns_None_iff:
  "fst (pipe_command e self w) = Returns RetNone \<longleftrightarrow> cmd self = None"
proof (cases "cmd self")
  case None
  then show ?thesis by (simp add: pipe_command_def)
next
  case (Some c)
  show ?thesis
  proof (cases "ignored (strip c)")
    case None
    from pipe_command_allowed [OF Some None, of e w] show ?thesis using Some by auto
  next
    case (Some name)
    from pipe_command_rejected [OF \<open>cmd self = Some c\<close> Some, of e w] show ?thesis
      using \<open>cmd self = Some c\<close> by simp
  qed
qed

text \<open>
  C6, as the code has it. When reading the temporary file fails (an IO error or a decoding
  error), \<open>pipe_command\<close> ends with that exception: it reaches the caller, no line is added
  to the capture console, and nothing is logged after the debug line that announces the
  command.
\<close>

theorem C6_read_error_propagates:
  assumes "cmd self = Some c" and "ignored (strip c) = None"
    and "read_text e (ProcessOutput (''script -q /dev/null '' @ strip c @ '' 2>&1 > '' @
                                     mkstemp_path e (temps w) [])) = Inl ex"
  shows "fst (pipe_command e self w) = Raises ex \<and>
         capture_console (fst (snd (pipe_command e self w))) = capture_console self \<and>
         events (snd (snd (pipe_command e self w))) =
           events w @
           [Log DEBUG (''Running command '' @ quoted (strip c)),
            Mkstemp (mkstemp_path e (temps w) []),
            Popen (''script -q /dev/null '' @ strip c @ '' 2>&1 > '' @
                   mkstemp_path e (temps w) [])]"
  using assms
  by (simp add: pipe_command_def Let_def mkstemp_def popen_def open_read_def log_def)

theorem C6_witness:
  "fst (pipe_command (demo_env\<lparr>read_text := (\<lambda>c. Inl UnicodeDecodeError)\<rparr>)
         (demo_job\<lparr>cmd := Some ''echo hello''\<rparr>) demo_world) = Raises UnicodeDecodeError \<and>
   capture_console (fst (snd (pipe_command (demo_env\<lparr>read_text := (\<lambda>c. Inl UnicodeDecodeError)\<rparr>)
         (demo_job\<lparr>cmd := Some ''echo hello''\<rparr>) demo_world))) = []"
proof -
  have c: "cmd (demo_job\<lparr>cmd := Some ''echo hello''\<rparr>) = Some ''echo hello''"
    by simp
  have g: "ignored (strip ''echo hello'') = None"
    by code_simp
  have r: "read_text (demo_env\<lparr>read_text := (\<lambda>c. Inl UnicodeDecodeError)\<rparr>)
             (ProcessOutput (''script -q /dev/null '' @ strip ''echo hello'' @ '' 2>&1 > '' @
                mkstemp_path (demo_env\<lparr>read_text := (\<lambda>c. Inl UnicodeDecodeError)\<rparr>)
                  (temps demo_world) [])) = Inl UnicodeDecodeError"
    by simp
  from C6_read_error_propagates [OF c g r] show ?thesis
    by (simp add: demo_job_def)
qed

text \<open>
  C6, as stated, fails: with a temporary file that cannot be decoded, the capture of
  \<open>echo hello\<close> raises UnicodeDecodeError to the caller.
\<close>

theorem C6_counterexample:
  "fst (pipe_command (demo_env\<lparr>read_text := (\<lambda>c. Inl UnicodeDecodeError)\<rparr>)
         (demo_job\<lparr>cmd := Some ''echo hello''\<rparr>) demo_world) = Raises UnicodeDecodeError"
  by code_simp

text \<open>
  C7. For the command \<open>echo hello\<close>, whose output is read and printed without error, the
  capture ends with AttributeError at \<open>datetime.now()\<close>: the temporary file is still there,
  no log file has been written and nothing was unlinked or copied.
\<close>

theorem C7_capture:
  "(let (r, self, w) = pipe_command demo_env (demo_job\<lparr>cmd := Some ''echo hello''\<rparr>) demo_world
    in (r, capture_console self, events w, fs w ''/tmp/tmp'')) =
   (Raises AttributeError, [AnsiLine ''hello''],
    [Log DEBUG (''Running command '' @ quoted ''echo hello''), Mkstemp ''/tmp/tmp'',
     Popen ''script -q /dev/null echo hello 2>&1 > /tmp/tmp''],
    Some (ProcessOutput ''script -q /dev/null echo hello 2>&1 > /tmp/tmp''))"
  by code_simp

section \<open>The snippet formatter and the choice of mode\<close>

lemma lower_json: "lower ''json'' = ''json''"
  by code_simp

text \<open>
  C8. For a snippet whose syntax tag is unset or \<open>json\<close>, the formatter returns normally;
  when the text parses, the console receives the pretty-printed JSON; when it does not,
  the console receives a \<open>Syntax\<close> entry of the unmodified text, which is highlighted with
  the lexer of the literal tag \<open>json\<close>, or with the lexer \<open>text\<close> when the tag is absent
  (Pygments having a lexer under \<open>json\<close>).
\<close>

theorem C8_json_fallback:
  assumes "snippet self = Some s"
    and "snippet_syntax self = None \<or> snippet_syntax self = Some ''json''"
    and "has_lexer ''json''"
  shows "fst (format_snippetg e self w) = Returns RetNone \<and>
         (case json_pretty e s of
            Some t \<Rightarrow>
              capture_console (fst (snd (format_snippetg e self w))) =
                capture_console self @ [JsonText t]
          | None \<Rightarrow>
              (\<exists>r. capture_console (fst (snd (format_snippetg e self w))) =
                      capture_console self @ [r] \<and>
                    highlighted has_lexer r =
                      Some (s, case snippet_syntax self of None \<Rightarrow> ''text'' | Some tag \<Rightarrow> tag)))"
  using assms
  by (auto simp add: format_snippetg_def Let_def print_json_def highlighted_def
      effective_lexer_def lower_json split: option.splits)

theorem C8_witness:
  "fst (format_snippetg demo_env (demo_job\<lparr>snippet := Some ''{}''\<rparr>) demo_world) = Returns RetNone \<and>
   capture_console (fst (snd (format_snippetg demo_env (demo_job\<lparr>snippet := Some ''{}''\<rparr>)
      demo_world))) = [JsonText ''{}''] \<and>
   map (highlighted demo_has_lexer)
     (capture_console (fst (snd (format_snippetg demo_env (demo_job\<lparr>snippet := Some ''{''\<rparr>)
        demo_world)))) = [Some (''{'', ''text'')] \<and>
   map (highlighted demo_has_lexer)
     (capture_console (fst (snd (format_snippetg demo_env
        (demo_job\<lparr>snippet := Some ''{'', snippet_syntax := Some ''json''\<rparr>) demo_world)))) =
     [Some (''{'', ''json'')]"
proof -
  have l: "demo_has_lexer ''json''"
    by code_simp
  have s1: "snippet (demo_job\<lparr>snippet := Some ''{}''\<rparr>) = Some ''{}''"
    by simp
  have t1: "snippet_syntax (demo_job\<lparr>snippet := Some ''{}''\<rparr>) = None \<or>
            snippet_syntax (demo_job\<lparr>snippet := Some ''{}''\<rparr>) = Some ''json''"
    by (simp add: demo_job_def)
  have s2: "snippet (demo_job\<lparr>snippet := Some ''{''\<rparr>) = Some ''{''"
    by simp
  have t2: "snippet_syntax (demo_job\<lparr>snippet := Some ''{''\<rparr>) = None \<or>
            snippet_syntax (demo_job\<lparr>snippet := Some ''{''\<rparr>) = Some ''json''"
    by (simp add: demo_job_def)
  have s3: "snippet (demo_job\<lparr>snippet := Some ''{'', snippet_syntax := Some ''json''\<rparr>) = Some ''{''"
    by simp
  have t3: "snippet_syntax (demo_job\<lparr>snippet := Some ''{'', snippet_syntax := Some ''json''\<rparr>) = None \<or>
            snippet_syntax (demo_job\<lparr>snippet := Some ''{'', snippet_syntax := Some ''json''\<rparr>) = Some ''json''"
    by simp
  have p1: "json_pretty demo_env ''{}'' = Some ''{}''" and p2: "json_pretty demo_env ''{'' = None"
    by (simp_all add: demo_env_def)
  have c: "capture_console demo_job = []" and y: "snippet_syntax demo_job = None"
    by (simp_all add: demo_job_def)
  from C8_json_fallback [where has_lexer = demo_has_lexer and e = demo_env and w = demo_world, OF s1 t1 l]
  have one: "fst (format_snippetg demo_env (demo_job\<lparr>snippet := Some ''{}''\<rparr>) demo_world) =
      Returns RetNone \<and>
    capture_console (fst (snd (format_snippetg demo_env (demo_job\<lparr>snippet := Some ''{}''\<rparr>)
      demo_world))) = [JsonText ''{}'']"
    by (simp add: p1 c)
  from C8_json_fallback [where has_lexer = demo_has_lexer and e = demo_env and w = demo_world, OF s2 t2 l]
  have two: "map (highlighted demo_has_lexer)
     (capture_console (fst (snd (format_snippetg demo_env (demo_job\<lparr>snippet := Some ''{''\<rparr>)
        demo_world)))) = [Some (''{'', ''text'')]"
    by (auto simp add: p2 c y)
  from C8_json_fallback [where has_lexer = demo_has_lexer and e = demo_env and w = demo_world, OF s3 t3 l]
  have three: "map (highlighted demo_has_lexer)
     (capture_console (fst (snd (format_snippetg demo_env
        (demo_job\<lparr>snippet := Some ''{'', snippet_syntax := Some ''json''\<rparr>) demo_world)))) =
     [Some (''{'', ''json'')]"
    by (auto simp add: p2 c)
  from one two three show ?thesis by blast
qed

text \<open>
  C3. For a job in snippet mode (snippet \<open>{}\<close>, no command) \<open>get_output\<close> only logs that
  there is no command or snippet: the job is unchanged and the capture console stays
  empty, although the formatter itself would print the JSON. For a job with neither
  command nor snippet it raises AttributeError.
\<close>

theorem C3_snippet_mode:
  "get_output demo_env (demo_job\<lparr>snippet := Some ''{}''\<rparr>) demo_world =
     (Returns RetNone, demo_job\<lparr>snippet := Some ''{}''\<rparr>,
      log DEBUG ''Tried to get output with no command or snippet'' demo_world) \<and>
   capture_console (fst (snd (get_output demo_env (demo_job\<lparr>snippet := Some ''{}''\<rparr>) demo_world))) = [] \<and>
   capture_console (fst (snd (format_snippetg demo_env (demo_job\<lparr>snippet := Some ''{}''\<rparr>) demo_world)))
     = [JsonText ''{}''] \<and>
   fst (get_output demo_env demo_job demo_world) = Raises AttributeError"
  by (simp add: get_output_def format_snippetg_def demo_job_def demo_env_def print_json_def Let_def)

section \<open>The image exporter\<close>

lemma fs_log [simp]: "fs (log l m w) = fs w"
  by (simp add: log_def)

lemma fs_mkdir_parent [simp]: "fs (mkdir_parent p w) = fs w"
  by (simp add: mkdir_parent_def)

lemma events_log [simp]: "events (log l m w) = events w @ [Log l m]"
  by (simp add: log_def)

lemma events_mkdir_parent [simp]: "events (mkdir_parent p w) = events w @ [Mkdir p]"
  by (simp add: mkdir_parent_def)

lemma temps_log [simp]: "temps (log l m w) = temps w"
  by (simp add: log_def)

lemma temps_mkdir_parent [simp]: "temps (mkdir_parent p w) = temps w"
  by (simp add: mkdir_parent_def)

lemma cached_source_Some:
  assumes "svg_img c \<noteq> None"
  shows "\<exists>src. cached_source filename c = Some src"
  using assms by (auto simp: cached_source_def)

lemma save_image_copy:
  assumes "cached_source filename c = Some src"
  shows "save_image e self filename (c, w) =
           (case copyfile src filename
                   (mkdir_parent filename (log DEBUG (''Saving [magenta]'' @ filename) w)) of
              Inl ex \<Rightarrow>
                Inl (ex, mkdir_parent filename (log DEBUG (''Saving [magenta]'' @ filename) w))
            | Inr w1 \<Rightarrow> Inr (c, w1))"
  using assms by (simp add: save_image_def Let_def split: sum.splits)

text \<open>One pass of the loop body once an SVG is remembered: it only logs, makes the
  directory and copies to \<open>filename\<close>; the cache stays as it is.\<close>

lemma save_image_cached:
  assumes "svg_img c \<noteq> None"
  shows "(case save_image e self filename (c, w) of
            Inl (ex, w') \<Rightarrow>
              fs w' = fs w \<and> temps w' = temps w \<and>
              events w' = events w @ [Log DEBUG (''Saving [magenta]'' @ filename), Mkdir filename]
          | Inr (c', w') \<Rightarrow>
              c' = c \<and> temps w' = temps w \<and>
              (\<exists>src v. fs w src = Some v \<and> src \<noteq> filename \<and> fs w' = (fs w)(filename \<mapsto> v) \<and>
                 events w' = events w @ [Log DEBUG (''Saving [magenta]'' @ filename),
                                          Mkdir filename, CopyFile src filename]))"
proof -
  from cached_source_Some [OF assms] obtain src where s: "cached_source filename c = Some src"
    by blast
  show ?thesis
    unfolding save_image_copy [OF s]
    by (auto simp: copyfile_def split: option.splits)
qed


lemma copy_phase_events:
  assumes "svg_img c \<noteq> None"
    and "\<And>l m. \<not> P (Log l m)" and "\<And>p. \<not> P (Mkdir p)" and "\<And>a b. \<not> P (CopyFile a b)"
  shows "filter P (events (world_of (save_loop e self rest (c, w)))) = filter P (events w)"
  using assms(1)
proof (induction rest arbitrary: w)
  case Nil
  then show ?case by (simp add: world_of_def)
next
  case (Cons filename rest)
  show ?case
  proof (cases "save_image e self filename (c, w)")
    case (Inl x)
    with save_image_cached [OF Cons.prems(1), where e = e and self = self and filename = filename and w = w]
    show ?thesis by (cases x) (simp add: world_of_def assms(2,3))
  next
    case (Inr y)
    obtain c' w' where y: "y = (c', w')" by (cases y)
    from save_image_cached [OF Cons.prems(1), where e = e and self = self and filename = filename and w = w] Inr y
    have c': "c' = c" and f: "filter P (events w') = filter P (events w)"
      by (auto simp: assms(2,3,4))
    from Cons.IH [OF Cons.prems(1), where w = w'] f
    show ?thesis using Inr y c' by auto
  qed
qed


lemma png_not_pdf: "endswith s ''.png'' \<Longrightarrow> \<not> endswith s ''.pdf''"
  by (auto simp: endswith_def suffix_def)

lemma cached_source_first:
  assumes "svg_img c = None" and "png_img c = None" and "pdf_img c = None"
  shows "cached_source filename c = None"
  using assms by (simp add: cached_source_def)

lemma cached_source_svg_only:
  assumes "svg_img c = Some s" and "png_img c = None" and "pdf_img c = None"
  shows "cached_source filename c = Some s"
  using assms by (simp add: cached_source_def)

text \<open>The first pass of the loop body for a path that is neither PNG nor PDF.\<close>

lemma save_image_first_vector:
  assumes "svg_img c = None" and "png_img c = None" and "pdf_img c = None"
    and "\<not> endswith (lower f) ''.png''" and "\<not> endswith (lower f) ''.pdf''"
  shows "save_image e self f (c, w) =
           Inr (c\<lparr>svg_img := Some f\<rparr>,
                save_svg self f (mkdir_parent f (log DEBUG (''Saving [magenta]'' @ f) w)))"
  using assms
  by (simp add: save_image_def Let_def cached_source_first convert_png_def convert_pdf_def)

text \<open>The first pass for a PNG or PDF path when the import fails.\<close>

lemma save_image_first_no_cairo:
  assumes "svg_img c = None" and "png_img c = None" and "pdf_img c = None"
    and "endswith (lower f) ''.png'' \<or> endswith (lower f) ''.pdf''"
    and "cairosvg e \<noteq> Imported"
  shows "\<exists>w'. save_image e self f (c, w) =
                 Inr (c\<lparr>svg_img := Some (mkstemp_path e (temps w) ''.svg'')\<rparr>, w') \<and>
              fs w' = (fs w)(mkstemp_path e (temps w) ''.svg'' \<mapsto>
                               SvgImage (capture_console self) (title self)) \<and>
              filter is_unlink (events w') = filter is_unlink (events w) \<and>
              filter is_raster_call (events w') = filter is_raster_call (events w) \<and>
              length (filter is_error_log (events w')) =
                Suc (length (filter is_error_log (events w)))"
  using assms
  by (auto simp add: save_image_def Let_def cached_source_first mkstemp_def save_svg_def
      import_failed_def is_unlink_def is_raster_call_def is_error_log_def)


text \<open>With only an SVG remembered, present and not asked for again, the rest of the loop
  runs to its end.\<close>

lemma copy_phase_returns:
  assumes "svg_img c = Some s" and "png_img c = None" and "pdf_img c = None"
    and "fs w s \<noteq> None" and "s \<notin> set rest"
  shows "\<exists>w'. save_loop e self rest (c, w) = Inr (c, w')"
  using assms(4,5)
proof (induction rest arbitrary: w)
  case Nil
  then show ?case by simp
next
  case (Cons filename rest)
  from Cons.prems obtain v where v: "fs w s = Some v" and ne: "s \<noteq> filename" and nr: "s \<notin> set rest"
    by auto
  let ?w1 = "mkdir_parent filename (log DEBUG (''Saving [magenta]'' @ filename) w)"
  let ?w2 = "?w1\<lparr>fs := (fs ?w1)(filename \<mapsto> v), events := events ?w1 @ [CopyFile s filename]\<rparr>"
  have "save_image e self filename (c, w) = Inr (c, ?w2)"
    unfolding save_image_copy [OF cached_source_svg_only [OF assms(1,2,3)]]
    using v ne by (simp add: copyfile_def)
  moreover have "fs ?w2 s \<noteq> None" using v ne by simp
  ultimately show ?case using Cons.IH [OF _ nr, where w = ?w2] by simp
qed

lemma save_images_world:
  assumes "\<not> aborted self" and "img_paths self \<noteq> []"
  shows "snd (save_images e self w) =
           world_of (save_loop e self (img_paths self)
                       (\<lparr>svg_img = None, png_img = None, pdf_img = None\<rparr>, w))"
  using assms by (simp add: save_images_def world_of_def split: sum.splits prod.splits)

lemma save_images_outcome:
  assumes "\<not> aborted self" and "img_paths self \<noteq> []"
  shows "fst (save_images e self w) =
           (case save_loop e self (img_paths self)
                   (\<lparr>svg_img = None, png_img = None, pdf_img = None\<rparr>, w) of
              Inl (ex, w') \<Rightarrow> Raises ex
            | Inr (c, w') \<Rightarrow> Returns (RetInt (int (length (img_paths self)))))"
  using assms by (simp add: save_images_def split: sum.splits prod.splits)



subsection \<open>The exporter on a file system that refuses nothing\<close>

lemma quiet_mkdir_parent: "quiet d \<Longrightarrow> mkdir_parent_io d f w = Inr (mkdir_parent f w)"
  by (simp add: quiet_def mkdir_parent_io_def)

lemma quiet_mkstemp: "quiet d \<Longrightarrow> mkstemp_io d e sfx w = Inr (mkstemp e sfx w)"
  by (simp add: quiet_def mkstemp_io_def)

lemma quiet_save_svg: "quiet d \<Longrightarrow> save_svg_io d self p w = Inr (save_svg self p w)"
  by (simp add: quiet_def save_svg_io_def)

lemma quiet_svg2png: "quiet d \<Longrightarrow> svg2png_io d a b w = svg2png a b w"
  by (simp add: quiet_def svg2png_io_def svg2png_def split: option.splits content.splits)

lemma quiet_svg2pdf: "quiet d \<Longrightarrow> svg2pdf_io d a b w = svg2pdf a b w"
  by (simp add: quiet_def svg2pdf_io_def svg2pdf_def split: option.splits content.splits)

lemma quiet_unlink: "quiet d \<Longrightarrow> unlink_io d p w = unlink p w"
  by (simp add: quiet_def unlink_io_def unlink_def split: option.splits)

lemma quiet_copyfile:
  assumes "quiet d" and "\<not> same_file d src dst"
  shows "copyfile_io d src dst w = copyfile src dst w"
  using assms by (simp add: quiet_def copyfile_io_def copyfile_def split: option.splits)

lemma quiet_convert_png: "quiet d \<Longrightarrow> convert_png_io d f s cw = convert_png f s cw"
  by (cases cw) (simp add: convert_png_io_def convert_png_def quiet_svg2png quiet_unlink
      cong: sum.case_cong)

lemma quiet_convert_pdf: "quiet d \<Longrightarrow> convert_pdf_io d f s cw = convert_pdf f s cw"
  by (cases cw) (simp add: convert_pdf_io_def convert_pdf_def quiet_svg2pdf quiet_unlink
      cong: sum.case_cong)

text \<open>A pass that copies nothing is the pass of the first model.\<close>

lemma quiet_save_image_generate:
  assumes "quiet d" and "cached_source f c = None"
  shows "save_image_io d e self f (c, w) = save_image e self f (c, w)"
  using assms
  by (simp add: save_image_io_def save_image_def generate_io_def Let_def quiet_mkdir_parent
      quiet_mkstemp quiet_save_svg quiet_convert_png quiet_convert_pdf
      split: prod.splits sum.splits)

text \<open>A pass that copies, from a source that is there and is not the destination.\<close>

lemma quiet_save_image_copy:
  assumes "quiet d" and "cached_source p c = Some s" and "fs w s = Some v"
    and "p \<noteq> s" and "\<not> same_file d s p"
  shows "\<exists>w'. save_image_io d e self p (c, w) = Inr (c, w') \<and> fs w' = (fs w)(p \<mapsto> v)"
  using assms
  by (simp add: save_image_io_def Let_def quiet_mkdir_parent copyfile_io_def quiet_def)

lemma copy_phase_io_returns:
  assumes "quiet d" and "fs w s \<noteq> None"
    and "\<forall>p\<in>set rest. cached_source p c = Some s \<and> p \<noteq> s \<and> \<not> same_file d s p"
  shows "\<exists>w'. save_loop_io d e self rest (c, w) = Inr (c, w')"
  using assms(2,3)
proof (induction rest arbitrary: w)
  case Nil
  then show ?case by simp
next
  case (Cons p rest)
  from Cons.prems obtain v where v: "fs w s = Some v" by auto
  from Cons.prems have p: "cached_source p c = Some s" "p \<noteq> s" "\<not> same_file d s p"
    and r: "\<forall>p\<in>set rest. cached_source p c = Some s \<and> p \<noteq> s \<and> \<not> same_file d s p"
    by auto
  from quiet_save_image_copy [OF assms(1) p(1) v p(2,3), of e self]
  obtain w1 where w1: "save_image_io d e self p (c, w) = Inr (c, w1)"
    and f1: "fs w1 = (fs w)(p \<mapsto> v)"
    by blast
  from f1 v p(2) have "fs w1 s \<noteq> None" by simp
  from Cons.IH [OF this r] w1 show ?case by simp
qed

text \<open>The first pass for a PNG path, and for a PDF path, when CairoSVG is there: the
  image is remembered, and it is there unless it is the temporary file itself.\<close>

lemma save_image_first_png:
  assumes "endswith (lower f) ''.png''" and "cairosvg e = Imported"
    and "f \<noteq> mkstemp_path e (temps w) ''.svg''"
  shows "\<exists>w'. save_image e self f (\<lparr>svg_img = None, png_img = None, pdf_img = None\<rparr>, w) =
                 Inr (\<lparr>svg_img = Some (mkstemp_path e (temps w) ''.svg''),
                       png_img = Some f, pdf_img = None\<rparr>, w') \<and>
              fs w' f \<noteq> None"
proof -
  from assms(1) have "\<not> endswith (lower f) ''.pdf''" by (rule png_not_pdf)
  with assms show ?thesis
    by (simp add: save_image_def Let_def cached_source_def mkstemp_def save_svg_def
        convert_png_def convert_pdf_def svg2png_def unlink_def)
qed

lemma save_image_first_pdf:
  assumes "endswith (lower f) ''.pdf''" and "cairosvg e = Imported"
    and "f \<noteq> mkstemp_path e (temps w) ''.svg''"
  shows "\<exists>w'. save_image e self f (\<lparr>svg_img = None, png_img = None, pdf_img = None\<rparr>, w) =
                 Inr (\<lparr>svg_img = Some (mkstemp_path e (temps w) ''.svg''),
                       png_img = None, pdf_img = Some f\<rparr>, w') \<and>
              fs w' f \<noteq> None"
proof -
  from assms(1) have "\<not> endswith (lower f) ''.png''" using png_not_pdf by blast
  with assms show ?thesis
    by (simp add: save_image_def Let_def cached_source_def mkstemp_def save_svg_def
        convert_png_def convert_pdf_def svg2pdf_def unlink_def)
qed

lemma save_images_io_outcome:
  assumes "\<not> aborted self" and "img_paths self = f # rest"
    and "save_image_io d e self f (\<lparr>svg_img = None, png_img = None, pdf_img = None\<rparr>, w) =
           Inr (c, w1)"
    and "save_loop_io d e self rest (c, w1) = Inr (c', w2)"
  shows "fst (save_images_io d e self w) = Returns (RetInt (int (length (img_paths self))))"
  using assms by (simp add: save_images_io_def)

text \<open>With no aliases and nothing refused, the second model is the first.\<close>

lemma save_image_io_plain:
  assumes "quiet d" and "\<And>a b. \<not> same_file d a b"
  shows "save_image_io d e self f cw = save_image e self f cw"
proof (cases cw)
  case (Pair c w)
  show ?thesis
  proof (cases "cached_source f c")
    case None
    with Pair quiet_save_image_generate [OF assms(1) None] show ?thesis by simp
  next
    case (Some src)
    with Pair assms show ?thesis
      by (simp add: save_image_io_def save_image_def Let_def quiet_mkdir_parent quiet_copyfile
          split: sum.splits)
  qed
qed

lemma save_loop_io_plain:
  assumes "quiet d" and "\<And>a b. \<not> same_file d a b"
  shows "save_loop_io d e self ps cw = save_loop e self ps cw"
  by (induction ps arbitrary: cw) (simp_all add: save_image_io_plain [OF assms] split: sum.splits)

lemma save_images_io_plain:
  assumes "quiet d" and "\<And>a b. \<not> same_file d a b"
  shows "save_images_io d e self w = save_images e self w"
  by (simp add: save_images_io_def save_images_def save_loop_io_plain [OF assms])

text \<open>
  C4, as the code has it. For an aborted job \<open>save_images\<close> returns None at once and leaves
  the world as it is. For empty \<open>img_paths\<close> it returns None (not 0), logs one warning and
  writes no file. Otherwise it returns the number of paths unless an exception leaves the
  loop. On a file system that refuses no operation it does return that number when the
  first path is neither PNG nor PDF and no later path is the same file as the first; when
  the first path is PNG or PDF, the import of CairoSVG fails and no later path is the
  temporary SVG; and when the first path is a PNG (a PDF) path other than the temporary
  name, CairoSVG is there, and every later path is a PNG (a PDF) path and not the same
  file as the first.
\<close>

theorem C4_save_images_result:
  assumes "tmp = mkstemp_path e (temps w) ''.svg''"
  shows
  "(aborted self \<longrightarrow> save_images_io d e self w = (Returns RetNone, w)) \<and>
   (\<not> aborted self \<and> img_paths self = [] \<longrightarrow>
      save_images_io d e self w =
        (Returns RetNone, log WARNING ''Tried to save images with no paths'' w) \<and>
      fs (snd (save_images_io d e self w)) = fs w) \<and>
   (\<not> aborted self \<and> img_paths self \<noteq> [] \<longrightarrow>
      (\<exists>ex. fst (save_images_io d e self w) = Raises ex) \<or>
      fst (save_images_io d e self w) = Returns (RetInt (int (length (img_paths self))))) \<and>
   (quiet d \<and> \<not> aborted self \<and> img_paths self = f # rest \<and>
    \<not> endswith (lower f) ''.png'' \<and> \<not> endswith (lower f) ''.pdf'' \<and>
    (\<forall>p\<in>set rest. p \<noteq> f \<and> \<not> same_file d f p) \<longrightarrow>
      fst (save_images_io d e self w) = Returns (RetInt (int (length (img_paths self))))) \<and>
   (quiet d \<and> \<not> aborted self \<and> img_paths self = f # rest \<and>
    (endswith (lower f) ''.png'' \<or> endswith (lower f) ''.pdf'') \<and> cairosvg e \<noteq> Imported \<and>
    (\<forall>p\<in>set rest. p \<noteq> tmp \<and> \<not> same_file d tmp p) \<longrightarrow>
      fst (save_images_io d e self w) = Returns (RetInt (int (length (img_paths self))))) \<and>
   (quiet d \<and> \<not> aborted self \<and> img_paths self = f # rest \<and>
    endswith (lower f) ''.png'' \<and> cairosvg e = Imported \<and> f \<noteq> tmp \<and>
    (\<forall>p\<in>set rest. endswith (lower p) ''.png'' \<and> p \<noteq> f \<and> \<not> same_file d f p) \<longrightarrow>
      fst (save_images_io d e self w) = Returns (RetInt (int (length (img_paths self))))) \<and>
   (quiet d \<and> \<not> aborted self \<and> img_paths self = f # rest \<and>
    endswith (lower f) ''.pdf'' \<and> cairosvg e = Imported \<and> f \<noteq> tmp \<and>
    (\<forall>p\<in>set rest. endswith (lower p) ''.pdf'' \<and> p \<noteq> f \<and> \<not> same_file d f p) \<longrightarrow>
      fst (save_images_io d e self w) = Returns (RetInt (int (length (img_paths self)))))"
proof -
  let ?c0 = "\<lparr>svg_img = None, png_img = None, pdf_img = None\<rparr>"
  let ?count = "Returns (RetInt (int (length (img_paths self))))"
  have none: "cached_source f ?c0 = None" for f
    by (simp add: cached_source_def)
  have one: "aborted self \<longrightarrow> save_images_io d e self w = (Returns RetNone, w)"
    by (simp add: save_images_io_def)
  have two: "\<not> aborted self \<and> img_paths self = [] \<longrightarrow>
      save_images_io d e self w =
        (Returns RetNone, log WARNING ''Tried to save images with no paths'' w) \<and>
      fs (snd (save_images_io d e self w)) = fs w"
    by (simp add: save_images_io_def)
  have three: "\<not> aborted self \<and> img_paths self \<noteq> [] \<longrightarrow>
      (\<exists>ex. fst (save_images_io d e self w) = Raises ex) \<or>
      fst (save_images_io d e self w) = ?count"
    by (simp add: save_images_io_def split: sum.splits prod.splits)
  have vector: "quiet d \<and> \<not> aborted self \<and> img_paths self = f # rest \<and>
    \<not> endswith (lower f) ''.png'' \<and> \<not> endswith (lower f) ''.pdf'' \<and>
    (\<forall>p\<in>set rest. p \<noteq> f \<and> \<not> same_file d f p) \<longrightarrow>
      fst (save_images_io d e self w) = ?count"
  proof
    assume a: "quiet d \<and> \<not> aborted self \<and> img_paths self = f # rest \<and>
      \<not> endswith (lower f) ''.png'' \<and> \<not> endswith (lower f) ''.pdf'' \<and>
      (\<forall>p\<in>set rest. p \<noteq> f \<and> \<not> same_file d f p)"
    then have q: "quiet d" by blast
    let ?c1 = "?c0\<lparr>svg_img := Some f\<rparr>"
    let ?w1 = "save_svg self f (mkdir_parent f (log DEBUG (''Saving [magenta]'' @ f) w))"
    have "save_image e self f (?c0, w) = Inr (?c1, ?w1)"
      using a by (intro save_image_first_vector) simp_all
    then have first: "save_image_io d e self f (?c0, w) = Inr (?c1, ?w1)"
      by (simp add: quiet_save_image_generate [OF q none])
    have there: "fs ?w1 f \<noteq> None" by (simp add: save_svg_def)
    have src: "\<forall>p\<in>set rest. cached_source p ?c1 = Some f \<and> p \<noteq> f \<and> \<not> same_file d f p"
      using a by (simp add: cached_source_def)
    from copy_phase_io_returns [OF q there src, of e self]
    obtain w2 where "save_loop_io d e self rest (?c1, ?w1) = Inr (?c1, w2)" by blast
    with a first show "fst (save_images_io d e self w) = ?count"
      by (intro save_images_io_outcome) simp_all
  qed
  have no_cairo: "quiet d \<and> \<not> aborted self \<and> img_paths self = f # rest \<and>
    (endswith (lower f) ''.png'' \<or> endswith (lower f) ''.pdf'') \<and> cairosvg e \<noteq> Imported \<and>
    (\<forall>p\<in>set rest. p \<noteq> tmp \<and> \<not> same_file d tmp p) \<longrightarrow>
      fst (save_images_io d e self w) = ?count"
  proof
    assume a: "quiet d \<and> \<not> aborted self \<and> img_paths self = f # rest \<and>
      (endswith (lower f) ''.png'' \<or> endswith (lower f) ''.pdf'') \<and> cairosvg e \<noteq> Imported \<and>
      (\<forall>p\<in>set rest. p \<noteq> tmp \<and> \<not> same_file d tmp p)"
    then have q: "quiet d" by blast
    let ?c1 = "?c0\<lparr>svg_img := Some tmp\<rparr>"
    from save_image_first_no_cairo [of ?c0 f e self w] a assms
    obtain w1 where "save_image e self f (?c0, w) = Inr (?c1, w1)"
      and there: "fs w1 tmp \<noteq> None"
      by auto
    then have first: "save_image_io d e self f (?c0, w) = Inr (?c1, w1)"
      by (simp add: quiet_save_image_generate [OF q none])
    have src: "\<forall>p\<in>set rest. cached_source p ?c1 = Some tmp \<and> p \<noteq> tmp \<and> \<not> same_file d tmp p"
      using a by (simp add: cached_source_def)
    from copy_phase_io_returns [OF q there src, of e self]
    obtain w2 where "save_loop_io d e self rest (?c1, w1) = Inr (?c1, w2)" by blast
    with a first show "fst (save_images_io d e self w) = ?count"
      by (intro save_images_io_outcome) simp_all
  qed
  have png: "quiet d \<and> \<not> aborted self \<and> img_paths self = f # rest \<and>
    endswith (lower f) ''.png'' \<and> cairosvg e = Imported \<and> f \<noteq> tmp \<and>
    (\<forall>p\<in>set rest. endswith (lower p) ''.png'' \<and> p \<noteq> f \<and> \<not> same_file d f p) \<longrightarrow>
      fst (save_images_io d e self w) = ?count"
  proof
    assume a: "quiet d \<and> \<not> aborted self \<and> img_paths self = f # rest \<and>
      endswith (lower f) ''.png'' \<and> cairosvg e = Imported \<and> f \<noteq> tmp \<and>
      (\<forall>p\<in>set rest. endswith (lower p) ''.png'' \<and> p \<noteq> f \<and> \<not> same_file d f p)"
    then have q: "quiet d" by blast
    let ?c1 = "\<lparr>svg_img = Some tmp, png_img = Some f, pdf_img = None\<rparr>"
    from save_image_first_png [of f e w self] a assms
    obtain w1 where "save_image e self f (?c0, w) = Inr (?c1, w1)"
      and there: "fs w1 f \<noteq> None"
      by auto
    then have first: "save_image_io d e self f (?c0, w) = Inr (?c1, w1)"
      by (simp add: quiet_save_image_generate [OF q none])
    have src: "\<forall>p\<in>set rest. cached_source p ?c1 = Some f \<and> p \<noteq> f \<and> \<not> same_file d f p"
      using a by (simp add: cached_source_def)
    from copy_phase_io_returns [OF q there src, of e self]
    obtain w2 where "save_loop_io d e self rest (?c1, w1) = Inr (?c1, w2)" by blast
    with a first show "fst (save_images_io d e self w) = ?count"
      by (intro save_images_io_outcome) simp_all
  qed
  have pdf: "quiet d \<and> \<not> aborted self \<and> img_paths self = f # rest \<and>
    endswith (lower f) ''.pdf'' \<and> cairosvg e = Imported \<and> f \<noteq> tmp \<and>
    (\<forall>p\<in>set rest. endswith (lower p) ''.pdf'' \<and> p \<noteq> f \<and> \<not> same_file d f p) \<longrightarrow>
      fst (save_images_io d e self w) = ?count"
  proof
    assume a: "quiet d \<and> \<not> aborted self \<and> img_paths self = f # rest \<and>
      endswith (lower f) ''.pdf'' \<and> cairosvg e = Imported \<and> f \<noteq> tmp \<and>
      (\<forall>p\<in>set rest. endswith (lower p) ''.pdf'' \<and> p \<noteq> f \<and> \<not> same_file d f p)"
    then have q: "quiet d" by blast
    let ?c1 = "\<lparr>svg_img = Some tmp, png_img = None, pdf_img = Some f\<rparr>"
    from save_image_first_pdf [of f e w self] a assms
    obtain w1 where "save_image e self f (?c0, w) = Inr (?c1, w1)"
      and there: "fs w1 f \<noteq> None"
      by auto
    then have first: "save_image_io d e self f (?c0, w) = Inr (?c1, w1)"
      by (simp add: quiet_save_image_generate [OF q none])
    have src: "\<forall>p\<in>set rest. cached_source p ?c1 = Some f \<and> p \<noteq> f \<and> \<not> same_file d f p"
      using a by (simp add: cached_source_def)
    from copy_phase_io_returns [OF q there src, of e self]
    obtain w2 where "save_loop_io d e self rest (?c1, w1) = Inr (?c1, w2)" by blast
    with a first show "fst (save_images_io d e self w) = ?count"
      by (intro save_images_io_outcome) simp_all
  qed
  from one two three vector no_cairo png pdf show ?thesis by blast
qed

theorem C4_witness:
  "save_images_io demo_disk demo_env (demo_job\<lparr>aborted := True\<rparr>) demo_world =
     (Returns RetNone, demo_world) \<and>
   save_images_io demo_disk demo_env demo_job demo_world =
     (Returns RetNone, log WARNING ''Tried to save images with no paths'' demo_world) \<and>
   fst (save_images_io demo_disk demo_env (demo_job\<lparr>img_paths := [''a.svg'', ''b.png'']\<rparr>)
          demo_world) = Returns (RetInt 2) \<and>
   fst (save_images_io demo_disk (demo_env\<lparr>cairosvg := ImportError\<rparr>)
          (demo_job\<lparr>img_paths := [''x.png'', ''y.png'']\<rparr>) demo_world) = Returns (RetInt 2) \<and>
   fst (save_images_io demo_disk demo_env (demo_job\<lparr>img_paths := [''x.png'', ''y.PNG'']\<rparr>)
          demo_world) = Returns (RetInt 2) \<and>
   fst (save_images_io demo_disk demo_env (demo_job\<lparr>img_paths := [''x.pdf'']\<rparr>)
          demo_world) = Returns (RetInt 1)"
proof -
  have q: "quiet demo_disk"
    by (simp add: quiet_def demo_disk_def)
  have t: "''/tmp/tmp.svg'' = mkstemp_path demo_env (temps demo_world) ''.svg''"
    by code_simp
  have t': "''/tmp/tmp.svg'' =
      mkstemp_path (demo_env\<lparr>cairosvg := ImportError\<rparr>) (temps demo_world) ''.svg''"
    by code_simp
  have a: "aborted (demo_job\<lparr>aborted := True\<rparr>)"
    by simp
  have b: "\<not> aborted demo_job \<and> img_paths demo_job = []"
    by (simp add: demo_job_def)
  have one: "save_images_io demo_disk demo_env (demo_job\<lparr>aborted := True\<rparr>) demo_world =
               (Returns RetNone, demo_world)"
    using C4_save_images_result [OF t, where self = "demo_job\<lparr>aborted := True\<rparr>" and d = demo_disk] a
    by blast
  have two: "save_images_io demo_disk demo_env demo_job demo_world =
     (Returns RetNone, log WARNING ''Tried to save images with no paths'' demo_world)"
    using C4_save_images_result [OF t, where self = demo_job and d = demo_disk] b
    by blast
  have c: "\<not> aborted (demo_job\<lparr>img_paths := [''a.svg'', ''b.png'']\<rparr>) \<and>
           img_paths (demo_job\<lparr>img_paths := [''a.svg'', ''b.png'']\<rparr>) = ''a.svg'' # [''b.png''] \<and>
           \<not> endswith (lower ''a.svg'') ''.png'' \<and> \<not> endswith (lower ''a.svg'') ''.pdf'' \<and>
           (\<forall>p\<in>set [''b.png'']. p \<noteq> ''a.svg'' \<and> \<not> same_file demo_disk ''a.svg'' p)"
    by code_simp
  have "fst (save_images_io demo_disk demo_env (demo_job\<lparr>img_paths := [''a.svg'', ''b.png'']\<rparr>)
          demo_world) =
     Returns (RetInt (int (length (img_paths (demo_job\<lparr>img_paths := [''a.svg'', ''b.png'']\<rparr>)))))"
    using C4_save_images_result [OF t, where self = "demo_job\<lparr>img_paths := [''a.svg'', ''b.png'']\<rparr>"
      and d = demo_disk and f = "''a.svg''" and rest = "[''b.png'']"] q c
    by blast
  then have three: "fst (save_images_io demo_disk demo_env
      (demo_job\<lparr>img_paths := [''a.svg'', ''b.png'']\<rparr>) demo_world) = Returns (RetInt 2)"
    by simp
  have n: "\<not> aborted (demo_job\<lparr>img_paths := [''x.png'', ''y.png'']\<rparr>) \<and>
           img_paths (demo_job\<lparr>img_paths := [''x.png'', ''y.png'']\<rparr>) = ''x.png'' # [''y.png''] \<and>
           (endswith (lower ''x.png'') ''.png'' \<or> endswith (lower ''x.png'') ''.pdf'') \<and>
           cairosvg (demo_env\<lparr>cairosvg := ImportError\<rparr>) \<noteq> Imported \<and>
           (\<forall>p\<in>set [''y.png'']. p \<noteq> ''/tmp/tmp.svg'' \<and> \<not> same_file demo_disk ''/tmp/tmp.svg'' p)"
    by code_simp
  have "fst (save_images_io demo_disk (demo_env\<lparr>cairosvg := ImportError\<rparr>)
          (demo_job\<lparr>img_paths := [''x.png'', ''y.png'']\<rparr>) demo_world) =
     Returns (RetInt (int (length (img_paths (demo_job\<lparr>img_paths := [''x.png'', ''y.png'']\<rparr>)))))"
    using C4_save_images_result [OF t', where self = "demo_job\<lparr>img_paths := [''x.png'', ''y.png'']\<rparr>"
      and d = demo_disk and f = "''x.png''" and rest = "[''y.png'']"] q n
    by blast
  then have four: "fst (save_images_io demo_disk (demo_env\<lparr>cairosvg := ImportError\<rparr>)
          (demo_job\<lparr>img_paths := [''x.png'', ''y.png'']\<rparr>) demo_world) = Returns (RetInt 2)"
    by simp
  have g: "\<not> aborted (demo_job\<lparr>img_paths := [''x.png'', ''y.PNG'']\<rparr>) \<and>
           img_paths (demo_job\<lparr>img_paths := [''x.png'', ''y.PNG'']\<rparr>) = ''x.png'' # [''y.PNG''] \<and>
           endswith (lower ''x.png'') ''.png'' \<and> cairosvg demo_env = Imported \<and>
           ''x.png'' \<noteq> ''/tmp/tmp.svg'' \<and>
           (\<forall>p\<in>set [''y.PNG'']. endswith (lower p) ''.png'' \<and> p \<noteq> ''x.png'' \<and>
              \<not> same_file demo_disk ''x.png'' p)"
    by code_simp
  have "fst (save_images_io demo_disk demo_env (demo_job\<lparr>img_paths := [''x.png'', ''y.PNG'']\<rparr>)
          demo_world) =
     Returns (RetInt (int (length (img_paths (demo_job\<lparr>img_paths := [''x.png'', ''y.PNG'']\<rparr>)))))"
    using C4_save_images_result [OF t, where self = "demo_job\<lparr>img_paths := [''x.png'', ''y.PNG'']\<rparr>"
      and d = demo_disk and f = "''x.png''" and rest = "[''y.PNG'']"] q g
    by blast
  then have five: "fst (save_images_io demo_disk demo_env
      (demo_job\<lparr>img_paths := [''x.png'', ''y.PNG'']\<rparr>) demo_world) = Returns (RetInt 2)"
    by simp
  have h: "\<not> aborted (demo_job\<lparr>img_paths := [''x.pdf'']\<rparr>) \<and>
           img_paths (demo_job\<lparr>img_paths := [''x.pdf'']\<rparr>) = ''x.pdf'' # [] \<and>
           endswith (lower ''x.pdf'') ''.pdf'' \<and> cairosvg demo_env = Imported \<and>
           ''x.pdf'' \<noteq> ''/tmp/tmp.svg'' \<and>
           (\<forall>p\<in>set []. endswith (lower p) ''.pdf'' \<and> p \<noteq> ''x.pdf'' \<and>
              \<not> same_file demo_disk ''x.pdf'' p)"
    by code_simp
  have "fst (save_images_io demo_disk demo_env (demo_job\<lparr>img_paths := [''x.pdf'']\<rparr>)
          demo_world) =
     Returns (RetInt (int (length (img_paths (demo_job\<lparr>img_paths := [''x.pdf'']\<rparr>)))))"
    using C4_save_images_result [OF t, where self = "demo_job\<lparr>img_paths := [''x.pdf'']\<rparr>"
      and d = demo_disk and f = "''x.pdf''" and rest = "[]"] q h
    by blast
  then have six: "fst (save_images_io demo_disk demo_env
      (demo_job\<lparr>img_paths := [''x.pdf'']\<rparr>) demo_world) = Returns (RetInt 1)"
    by simp
  from one two three four five six show ?thesis by blast
qed

text \<open>
  C4, as stated, fails: with no output paths \<open>save_images\<close> returns None, which is not the
  count 0; and for the paths \<open>a.svg\<close>, \<open>./a.svg\<close>, which name one file, the copy raises
  SameFileError and no count is returned.
\<close>

theorem C4_counterexample:
  "fst (save_images_io demo_disk demo_env demo_job demo_world) = Returns RetNone \<and>
   fst (save_images_io demo_disk demo_env demo_job demo_world) \<noteq> Returns (RetInt 0) \<and>
   fst (save_images_io demo_disk demo_env (demo_job\<lparr>img_paths := [''a.svg'', ''./a.svg'']\<rparr>)
          demo_world) = Raises SameFileError"
  by code_simp

lemma save_loop_first:
  "save_loop e self (f # rest) cw =
     (case save_image e self f cw of Inl x \<Rightarrow> Inl x | Inr cw1 \<Rightarrow> save_loop e self rest cw1)"
  by simp





text \<open>The first pass of the loop calls a converter at most once.\<close>

lemma save_image_first_calls:
  assumes "svg_img c = None" and "png_img c = None" and "pdf_img c = None"
  shows "\<exists>c' w'. save_image e self f (c, w) = Inr (c', w') \<and> svg_img c' \<noteq> None \<and>
           length (filter is_raster_call (events w')) \<le>
             Suc (length (filter is_raster_call (events w)))"
proof (cases "endswith (lower f) ''.png''")
  case True
  then have "\<not> endswith (lower f) ''.pdf''" by (rule png_not_pdf)
  with True assms show ?thesis
    by (cases "cairosvg e = Imported")
      (simp_all add: save_image_def Let_def cached_source_first mkstemp_def save_svg_def
        convert_png_def convert_pdf_def svg2png_def unlink_def is_raster_call_def
        import_failed_def)
next
  case False
  with assms show ?thesis
    by (cases "cairosvg e = Imported"; cases "endswith (lower f) ''.pdf''")
      (simp_all add: save_image_def Let_def cached_source_first mkstemp_def save_svg_def
        convert_png_def convert_pdf_def svg2pdf_def unlink_def is_raster_call_def
        import_failed_def)
qed

text \<open>Rasterization is called at most once in a run of \<open>save_images\<close>.\<close>

lemma raster_at_most_once:
  "length (filter is_raster_call (events (snd (save_images e self w)))) \<le>
     Suc (length (filter is_raster_call (events w)))"
proof (cases "aborted self \<or> img_paths self = []")
  case True
  then show ?thesis by (auto simp: save_images_def is_raster_call_def)
next
  case False
  then obtain f rest where ps: "img_paths self = f # rest"
    by (cases "img_paths self") auto
  let ?c0 = "\<lparr>svg_img = None, png_img = None, pdf_img = None\<rparr>"
  from save_image_first_calls [of ?c0 e self f w]
  obtain c' w' where first: "save_image e self f (?c0, w) = Inr (c', w')"
    and c': "svg_img c' \<noteq> None"
    and n: "length (filter is_raster_call (events w')) \<le>
             Suc (length (filter is_raster_call (events w)))"
    by auto
  have "filter is_raster_call (events (world_of (save_loop e self rest (c', w')))) =
          filter is_raster_call (events w')"
    by (rule copy_phase_events [OF c']) (simp_all add: is_raster_call_def)
  with first n ps False show ?thesis
    by (simp add: save_images_world)
qed

text \<open>
  C1. For the paths \<open>x.svg\<close>, \<open>x.png\<close>, \<open>y.png\<close> with CairoSVG installed, \<open>save_images\<close>
  returns 3 after one \<open>save_svg\<close> and two copies of \<open>x.svg\<close>: no conversion to PNG is
  called, and \<open>x.png\<close> and \<open>y.png\<close> hold the SVG.
\<close>

theorem C1_scenario_E:
  "(let (r, w) = save_images demo_env (demo_job\<lparr>img_paths := [''x.svg'', ''x.png'', ''y.png'']\<rparr>)
                   demo_world
    in (r, events w, fs w ''x.svg'', fs w ''x.png'', fs w ''y.png'')) =
   (Returns (RetInt 3),
    [Log DEBUG ''Saving [magenta]x.svg'', Mkdir ''x.svg'', SaveSvg ''x.svg'',
     Log DEBUG ''Saving [magenta]x.png'', Mkdir ''x.png'', CopyFile ''x.svg'' ''x.png'',
     Log DEBUG ''Saving [magenta]y.png'', Mkdir ''y.png'', CopyFile ''x.svg'' ''y.png''],
    Some (SvgImage [] []), Some (SvgImage [] []), Some (SvgImage [] []))"
  by code_simp

text \<open>When the import of CairoSVG fails and the temporary name is not among the paths
  asked for, the loop runs to its end.\<close>

lemma no_cairo_returns:
  assumes "\<not> aborted self" and "img_paths self = f # rest"
    and "endswith (lower f) ''.png'' \<or> endswith (lower f) ''.pdf''"
    and "cairosvg e \<noteq> Imported"
    and "mkstemp_path e (temps w) ''.svg'' \<notin> set rest"
  shows "fst (save_images e self w) = Returns (RetInt (int (length (img_paths self))))"
proof -
  let ?c0 = "\<lparr>svg_img = None, png_img = None, pdf_img = None\<rparr>"
  let ?tmp = "mkstemp_path e (temps w) ''.svg''"
  from save_image_first_no_cairo [of ?c0 f e self w] assms(3,4)
  obtain w' where first: "save_image e self f (?c0, w) = Inr (?c0\<lparr>svg_img := Some ?tmp\<rparr>, w')"
    and f: "fs w' ?tmp \<noteq> None"
    by auto
  from copy_phase_returns [of "?c0\<lparr>svg_img := Some ?tmp\<rparr>" ?tmp w' rest e self, OF _ _ _ f assms(5)]
  obtain w'' where "save_loop e self rest (?c0\<lparr>svg_img := Some ?tmp\<rparr>, w') =
      Inr (?c0\<lparr>svg_img := Some ?tmp\<rparr>, w'')"
    by auto
  with first assms(1,2) show ?thesis
    by (simp add: save_images_outcome)
qed

text \<open>
  C9. For the paths \<open>x.png\<close>, \<open>y.png\<close> when the import of CairoSVG fails, \<open>save_images\<close>
  returns 2: \<open>x.png\<close> is skipped with one logged error, but \<open>y.png\<close> is not skipped, it is
  written as a copy of the temporary SVG, with no error logged for it; the temporary SVG
  stays.
\<close>

theorem C9_missing_rasterizer:
  "(let (r, w) = save_images (demo_env\<lparr>cairosvg := ImportError\<rparr>)
                   (demo_job\<lparr>img_paths := [''x.png'', ''y.png'']\<rparr>) demo_world
    in (r, events w, fs w ''x.png'', fs w ''y.png'', fs w ''/tmp/tmp.svg'')) =
   (Returns (RetInt 2),
    [Log DEBUG ''Saving [magenta]x.png'', Mkdir ''x.png'', Mkstemp ''/tmp/tmp.svg'',
     SaveSvg ''/tmp/tmp.svg'', ImportCairosvg,
     Log DEBUG (''No module named '' @ quoted ''cairosvg''),
     Log ERROR ''CairoSVG not installed, cannot convert SVG to PNG or PDF.'',
     Log INFO (''Please install with cairo extra: '' @ quoted ''rich-codex[cairo]''),
     Log DEBUG ''Saving [magenta]y.png'', Mkdir ''y.png'', CopyFile ''/tmp/tmp.svg'' ''y.png''],
    None, Some (SvgImage [] []), Some (SvgImage [] []))"
  by code_simp

section \<open>The command guard\<close>

subsection \<open>strip\<close>

lemma rstrip_prefix: "prefix (rstrip s) s"
proof -
  have "suffix (dropWhile is_space (rev s)) (rev s)"
    by (rule suffix_dropWhile)
  then show ?thesis
    by (simp add: rstrip_def suffix_to_prefix)
qed

lemma lstrip_decomp: "s = takeWhile is_space s @ lstrip s"
  by (simp add: lstrip_def)

lemma strip_decomp: "\<exists>ws t. s = ws @ strip s @ t \<and> (\<forall>x\<in>set ws. is_space x)"
proof -
  from rstrip_prefix [of "lstrip s"] obtain t where "lstrip s = strip s @ t"
    by (auto simp: strip_def prefix_def)
  with lstrip_decomp [of s] have "s = takeWhile is_space s @ strip s @ t"
    by simp
  moreover have "\<forall>x\<in>set (takeWhile is_space s). is_space x"
    by (auto dest: set_takeWhileD)
  ultimately show ?thesis by blast
qed

lemma strip_prefix_decomp:
  assumes "prefix n (strip s)"
  shows "\<exists>ws r. s = ws @ n @ r \<and> (\<forall>x\<in>set ws. is_space x)"
proof -
  from strip_decomp [of s] obtain ws t where s: "s = ws @ strip s @ t"
    and ws: "\<forall>x\<in>set ws. is_space x"
    by blast
  from assms obtain r where "strip s = n @ r" by (auto simp: prefix_def)
  with s have "s = ws @ n @ (r @ t)" by simp
  with ws show ?thesis by blast
qed

lemma strip_keeps:
  assumes "\<forall>x\<in>set ws. is_space x" and "n \<noteq> []" and "\<forall>x\<in>set n. \<not> is_space x"
  shows "prefix n (strip (ws @ n @ r))"
proof -
  from assms(2,3) have h: "\<not> is_space (hd n)" and l: "\<not> is_space (last n)"
    by auto
  from assms(2) h have "dropWhile is_space (n @ r) = n @ r"
    by (cases n) auto
  with assms(1) have ls: "lstrip (ws @ n @ r) = n @ r"
    by (simp add: lstrip_def)
  from assms(2) l have "dropWhile is_space (rev n) = rev n"
    by (cases n rule: rev_cases) auto
  then have "rstrip (n @ r) = n \<or> rstrip (n @ r) = n @ rev (dropWhile is_space (rev r))"
    by (auto simp: rstrip_def dropWhile_append)
  with ls show ?thesis by (auto simp: strip_def)
qed

subsection \<open>The names of the denylist\<close>

lemma ignore_names_plain_all:
  "list_all (\<lambda>name. name \<noteq> [] \<and> list_all (\<lambda>x. \<not> is_space x \<and> \<not> is_separator x) name)
     IGNORE_COMMANDS"
  by code_simp

lemma ignore_names_plain:
  assumes "name \<in> set IGNORE_COMMANDS"
  shows "name \<noteq> []" and "\<forall>x\<in>set name. \<not> is_space x" and "\<forall>x\<in>set name. \<not> is_separator x"
  using assms ignore_names_plain_all by (auto simp: list_all_iff)

lemma separators_not_space_all: "list_all (\<lambda>x. \<not> is_space x) ''&;|''"
  by code_simp

lemma space_not_separator: "is_space x \<Longrightarrow> \<not> is_separator x"
  using separators_not_space_all by (auto simp: is_separator_def)

subsection \<open>split and the segments of the specification\<close>

lemma split_ne: "split sep s \<noteq> []"
  by (induction sep s rule: split.induct) (auto split: list.splits)

lemma split_hd_prefix: "prefix (hd (split sep s)) s"
proof (induction sep s rule: split.induct)
  case (1 sep)
  then show ?case by simp
next
  case (2 sep c cs)
  then show ?case
    using split_ne [of sep cs] by (auto split: list.splits)
qed

lemma split_tl_part:
  assumes "part \<in> set (tl (split sep s))"
  shows "\<exists>pre post. s = pre @ sep @ part @ post"
  using assms
proof (induction sep s arbitrary: part rule: split.induct)
  case (1 sep)
  then show ?case by simp
next
  case (2 sep c cs)
  show ?case
  proof (cases "sep \<noteq> [] \<and> prefix sep (c # cs)")
    case True
    then obtain rest where rest: "c # cs = sep @ rest"
      by (auto simp: prefix_def)
    then have d: "drop (length sep) (c # cs) = rest" by (metis append_eq_conv_conj)
    from True "2.prems" d have mem: "part \<in> set (split sep rest)" by simp
    show ?thesis
    proof (cases "part = hd (split sep rest)")
      case True
      with split_hd_prefix [of sep rest] obtain post where "rest = part @ post"
        by (auto simp: prefix_def)
      with rest have "c # cs = [] @ sep @ part @ post" by simp
      then show ?thesis by blast
    next
      case False
      with mem split_ne [of sep rest] have "part \<in> set (tl (split sep rest))"
        by (cases "split sep rest") auto
      then have "part \<in> set (tl (split sep (drop (length sep) (c # cs))))"
        by (simp only: d)
      from "2.IH"(1) [OF True this] have "\<exists>pre post. rest = pre @ sep @ part @ post"
        by (simp only: d)
      then obtain pre post where "rest = pre @ sep @ part @ post"
        by blast
      with rest have "c # cs = (sep @ pre) @ sep @ part @ post" by simp
      then show ?thesis by blast
    qed
  next
    case False
    with "2.prems" split_ne [of sep cs] have "part \<in> set (tl (split sep cs))"
      by (auto split: list.splits)
    from "2.IH"(2) [OF False this] obtain pre post where "cs = pre @ sep @ part @ post"
      by blast
    then have "c # cs = (c # pre) @ sep @ part @ post" by simp
    then show ?thesis by blast
  qed
qed

lemma split_hd_plain:
  assumes "\<forall>x\<in>set n. x \<noteq> a"
  shows "hd (split (a # sep) (n @ r)) = n @ hd (split (a # sep) r)"
  using assms
proof (induction n)
  case Nil
  then show ?case by simp
next
  case (Cons x n)
  then show ?case
    using split_ne [of "a # sep" "n @ r"] by (auto split: list.splits)
qed

lemma spec_segments_ne: "spec_segments s \<noteq> []"
  by (induction s) (auto split: list.splits)

lemma hd_spec_segments: "hd (spec_segments s) = takeWhile (\<lambda>x. \<not> is_separator x) s"
  using spec_segments_ne by (induction s) (auto split: list.splits)

lemma segment_after_separator:
  assumes "pre \<noteq> []" and "is_separator (last pre)"
  shows "takeWhile (\<lambda>x. \<not> is_separator x) rest \<in> set (tl (spec_segments (pre @ rest)))"
  using assms
proof (induction pre)
  case Nil
  then show ?case by simp
next
  case (Cons x pre)
  show ?case
  proof (cases "pre = []")
    case True
    with Cons.prems have "is_separator x" by simp
    with True show ?thesis
      using spec_segments_ne [of rest] hd_spec_segments [of rest]
      by (cases "spec_segments rest") auto
  next
    case False
    with Cons have "takeWhile (\<lambda>x. \<not> is_separator x) rest \<in> set (tl (spec_segments (pre @ rest)))"
      by simp
    then show ?thesis
      using spec_segments_ne [of "pre @ rest"]
      by (cases "spec_segments (pre @ rest)") (auto dest: list.set_sel(2))
  qed
qed

lemma segment_at:
  assumes "pre = [] \<or> is_separator (last pre)"
  shows "takeWhile (\<lambda>x. \<not> is_separator x) rest \<in> set (spec_segments (pre @ rest))"
proof (cases "pre = []")
  case True
  then show ?thesis
    using spec_segments_ne [of rest] hd_spec_segments [of rest]
    by (cases "spec_segments rest") auto
next
  case False
  with assms segment_after_separator [of pre rest] show ?thesis
    using spec_segments_ne [of "pre @ rest"]
    by (cases "spec_segments (pre @ rest)") auto
qed

lemma ignored_Some:
  assumes "ignored c = Some name"
  shows "name \<in> set IGNORE_COMMANDS"
    and "\<exists>part\<in>set (split ''&;'' c). prefix name (strip part)"
  using assms
  by (auto simp: ignored_def find_Some_iff list_ex_iff startswith_def in_set_conv_nth)

lemma ignored_hit:
  assumes "name \<in> set IGNORE_COMMANDS" and "part \<in> set (split ''&;'' c)"
    and "prefix name (strip part)"
  shows "ignored c \<noteq> None"
  using assms by (auto simp: ignored_def find_None_iff list_ex_iff startswith_def)

text \<open>Soundness: a command the code rejects has a segment that starts with a denylisted
  name.\<close>

lemma rejected_sound:
  assumes "ignored (strip c) = Some name"
  shows "spec_rejects c"
proof -
  from ignored_Some [OF assms] obtain part where name: "name \<in> set IGNORE_COMMANDS"
    and part: "part \<in> set (split ''&;'' (strip c))" and pre: "prefix name (strip part)"
    by blast
  from strip_prefix_decomp [OF pre] obtain ws r where p: "part = ws @ name @ r"
    and ws: "\<forall>x\<in>set ws. is_space x"
    by blast
  from strip_decomp [of c] obtain ws0 t where c: "c = ws0 @ strip c @ t"
    and ws0: "\<forall>x\<in>set ws0. is_space x"
    by blast
  have "\<exists>before sp after. c = before @ sp @ name @ after \<and> (\<forall>x\<in>set sp. is_space x) \<and>
          (before = [] \<or> is_separator (last before))"
  proof (cases "part = hd (split ''&;'' (strip c))")
    case True
    with split_hd_prefix [of "''&;''" "strip c"] obtain post where "strip c = part @ post"
      by (auto simp: prefix_def)
    with c p have "c = [] @ (ws0 @ ws) @ name @ (r @ post @ t)" by simp
    moreover have "\<forall>x\<in>set (ws0 @ ws). is_space x" using ws ws0 by auto
    ultimately show ?thesis by blast
  next
    case False
    with part split_ne [of "''&;''" "strip c"] have "part \<in> set (tl (split ''&;'' (strip c)))"
      by (cases "split ''&;'' (strip c)") auto
    from split_tl_part [OF this] obtain pre post where "strip c = pre @ ''&;'' @ part @ post"
      by blast
    with c p have "c = (ws0 @ pre @ ''&;'') @ ws @ name @ (r @ post @ t)" by simp
    moreover have "is_separator (last (ws0 @ pre @ ''&;''))"
      by (simp add: is_separator_def)
    ultimately show ?thesis using ws by blast
  qed
  then obtain before sp after where c': "c = before @ sp @ name @ after"
    and sp: "\<forall>x\<in>set sp. is_space x"
    and before: "before = [] \<or> is_separator (last before)"
    by blast
  let ?seg = "takeWhile (\<lambda>x. \<not> is_separator x) (sp @ name @ after)"
  have seg: "?seg \<in> set (spec_segments c)"
    unfolding c' by (rule segment_at [OF before])
  have "?seg = sp @ name @ takeWhile (\<lambda>x. \<not> is_separator x) after"
    using sp ignore_names_plain(3) [OF name]
    by (simp add: takeWhile_append2 space_not_separator)
  then have "prefix name (strip ?seg)"
    using strip_keeps [OF sp ignore_names_plain(1,2) [OF name]] by simp
  with seg name show ?thesis
    by (auto simp: spec_rejects_def list_ex_iff startswith_def)
qed

text \<open>Completeness on the first segment.\<close>

lemma first_segment_rejected:
  assumes "first_segment_denied c"
  shows "ignored (strip c) \<noteq> None"
proof -
  let ?seg = "takeWhile (\<lambda>x. \<not> is_separator x) c"
  from assms spec_segments_ne [of c] hd_spec_segments [of c]
  obtain name where name: "name \<in> set IGNORE_COMMANDS" and pre: "prefix name (strip ?seg)"
    by (cases "spec_segments c") (auto simp: first_segment_denied_def list_ex_iff startswith_def)
  note plain = ignore_names_plain [OF name]
  from strip_prefix_decomp [OF pre] obtain ws r where seg: "?seg = ws @ name @ r"
    and ws: "\<forall>x\<in>set ws. is_space x"
    by blast
  have "c = ?seg @ dropWhile (\<lambda>x. \<not> is_separator x) c" by simp
  with seg have "c = ws @ name @ (r @ dropWhile (\<lambda>x. \<not> is_separator x) c)" by simp
  with strip_keeps [OF ws plain(1,2)] have "prefix name (strip c)" by metis
  then obtain rest where sc: "strip c = name @ rest" by (auto simp: prefix_def)
  have amp: "\<forall>x\<in>set name. x \<noteq> CHR ''&''"
    using plain(3) by (auto simp: is_separator_def)
  let ?part = "hd (split ''&;'' (strip c))"
  have "?part = name @ hd (split ''&;'' rest)"
    unfolding sc using split_hd_plain [OF amp] by simp
  then have "prefix name (strip ?part)"
    using strip_keeps [of "[]" name, OF _ plain(1,2)] by simp
  moreover have "?part \<in> set (split ''&;'' (strip c))"
    using split_ne [of "''&;''" "strip c"] by simp
  ultimately show ?thesis using ignored_hit [OF name] by blast
qed

text \<open>
  C2, as the code has it. For every command, \<open>pipe_command\<close> rejects (returns False) only
  if some segment of the command between separators, trimmed, starts with a denylisted
  name, and it does reject whenever the first segment, trimmed, starts with one. On
  rejection the \<open>aborted\<close> flag is set, one warning is logged and that is all: no
  temporary file, no child process. A command that is not rejected leaves \<open>aborted\<close> as it
  was and is run by the shell.
\<close>

theorem C2_guard:
  assumes "cmd self = Some c"
  shows "(fst (pipe_command e self w) = Returns (RetBool False) \<longrightarrow>
            spec_rejects c \<and>
            aborted (fst (snd (pipe_command e self w))) \<and>
            fs (snd (snd (pipe_command e self w))) = fs w \<and>
            (\<exists>name. events (snd (snd (pipe_command e self w))) =
               events w @
               [Log WARNING (''Ignoring command because it contained '' @ quoted name @
                             '': [white on black] '' @ strip c @ '' [/]'')])) \<and>
         (first_segment_denied c \<longrightarrow>
            fst (pipe_command e self w) = Returns (RetBool False)) \<and>
         (fst (pipe_command e self w) \<noteq> Returns (RetBool False) \<longrightarrow>
            aborted (fst (snd (pipe_command e self w))) = aborted self \<and>
            (\<exists>command. Popen command \<in> set (events (snd (snd (pipe_command e self w))))))"
proof (cases "ignored (strip c)")
  case None
  from pipe_command_allowed [OF assms None, of e w]
  obtain ex self' w' where r: "pipe_command e self w = (Raises ex, self', w')"
    and a: "aborted self' = aborted self"
    and evs: "events w' =
             events w @
             [Log DEBUG (''Running command '' @ quoted (strip c)),
              Mkstemp (mkstemp_path e (temps w) []),
              Popen (''script -q /dev/null '' @ strip c @ '' 2>&1 > '' @
                     mkstemp_path e (temps w) [])]"
    by blast
  have "Popen (''script -q /dev/null '' @ strip c @ '' 2>&1 > '' @
                     mkstemp_path e (temps w) []) \<in> set (events w')"
    unfolding evs by simp
  then have ev: "\<exists>command. Popen command \<in> set (events w')"
    by blast
  from None first_segment_rejected [of c] have "\<not> first_segment_denied c" by blast
  with r a ev show ?thesis by simp
next
  case (Some name)
  from rejected_sound [OF Some] pipe_command_rejected [OF assms Some, of e w]
  show ?thesis by (auto simp: log_def)
qed

theorem C2_witness:
  "spec_rejects ''  rm -rf / &; echo'' \<and>
   fst (pipe_command demo_env (demo_job\<lparr>cmd := Some ''  rm -rf / &; echo''\<rparr>) demo_world) =
     Returns (RetBool False) \<and>
   aborted (fst (snd (pipe_command demo_env (demo_job\<lparr>cmd := Some ''  rm -rf / &; echo''\<rparr>)
     demo_world))) \<and>
   fs (snd (snd (pipe_command demo_env (demo_job\<lparr>cmd := Some ''  rm -rf / &; echo''\<rparr>)
     demo_world))) = fs demo_world \<and>
   aborted (fst (snd (pipe_command demo_env (demo_job\<lparr>cmd := Some ''echo hello''\<rparr>)
     demo_world))) = aborted (demo_job\<lparr>cmd := Some ''echo hello''\<rparr>)"
proof -
  have c1: "cmd (demo_job\<lparr>cmd := Some ''  rm -rf / &; echo''\<rparr>) = Some ''  rm -rf / &; echo''"
    by simp
  have d1: "first_segment_denied ''  rm -rf / &; echo''"
    by code_simp
  have c2: "cmd (demo_job\<lparr>cmd := Some ''echo hello''\<rparr>) = Some ''echo hello''"
    by simp
  have n2: "fst (pipe_command demo_env (demo_job\<lparr>cmd := Some ''echo hello''\<rparr>) demo_world) \<noteq>
      Returns (RetBool False)"
    by code_simp
  from C2_guard [OF c1, of demo_env demo_world] d1
       C2_guard [OF c2, of demo_env demo_world] n2
  show ?thesis by blast
qed

text \<open>
  C2, as stated, fails: \<open>echo hi | rm -rf /\<close> has a pipeline segment that starts with
  \<open>rm\<close>, and the code does not reject it: \<open>aborted\<close> stays False and the shell runs it.
\<close>

theorem C2_counterexample:
  "spec_rejects ''echo hi | rm -rf /'' \<and>
   (let (r, self, w) = pipe_command demo_env (demo_job\<lparr>cmd := Some ''echo hi | rm -rf /''\<rparr>)
                         demo_world
    in r \<noteq> Returns (RetBool False) \<and> \<not> aborted self \<and>
       list_ex (\<lambda>ev. ev = Popen ''script -q /dev/null echo hi | rm -rf / 2>&1 > /tmp/tmp'')
         (events w))"
  by code_simp

end
